theory Spec2Isabelle
  imports Main "HOL-Library.Sublist"
begin

section \<open>JavaScript values\<close>

text \<open>
  The proxy's helpers in \<^verbatim>\<open>src/proxy/common.ts\<close> are written against duck-typed
  objects. A property value is one of the primitive kinds below or an object that is only
  passed along (an agent, a buffer, a callback). Numbers are the integer-valued ones;
  \<open>JObj n\<close> is an object known by its identity \<open>n\<close>, without conversion methods of its
  own. A string is the list of its code units; header and URL text as Node delivers it
  stays below 256 per unit.
\<close>

datatype jsval = JUndefined | JNull | JBool bool | JNum int | JStr string | JObj nat

text \<open>Truthiness, as \<^verbatim>\<open>if (x)\<close>, \<^verbatim>\<open>!x\<close>, \<^verbatim>\<open>Boolean(x)\<close> and \<^verbatim>\<open>filter(Boolean)\<close> read it.\<close>

fun truthy :: "jsval \<Rightarrow> bool" where
  "truthy JUndefined = False"
| "truthy JNull = False"
| "truthy (JBool b) = b"
| "truthy (JNum n) = (n \<noteq> 0)"
| "truthy (JStr s) = (s \<noteq> [])"
| "truthy (JObj _) = True"

text \<open>\<^verbatim>\<open>a || b\<close>: the left operand when it is truthy, else the right one.\<close>

definition js_or :: "jsval \<Rightarrow> jsval \<Rightarrow> jsval" where
  "js_or a b = (if truthy a then a else b)"

text \<open>An object's properties: reading a key that is not there gives \<^verbatim>\<open>undefined\<close>.\<close>

type_synonym props = "string \<rightharpoonup> jsval"

definition get :: "props \<Rightarrow> string \<Rightarrow> jsval" where
  "get m k = (case m k of None \<Rightarrow> JUndefined | Some v \<Rightarrow> v)"

fun dec :: "nat \<Rightarrow> string" where
  "dec n = (if n < 10 then [''0123456789'' ! n]
            else dec (n div 10) @ [''0123456789'' ! (n mod 10)])"

declare dec.simps [simp del]

text \<open>String conversion, as string concatenation and \<^verbatim>\<open>RegExp.test\<close> apply it.\<close>

fun ToString :: "jsval \<Rightarrow> string" where
  "ToString JUndefined = ''undefined''"
| "ToString JNull = ''null''"
| "ToString (JBool b) = (if b then ''true'' else ''false'')"
| "ToString (JNum n) = (if n < 0 then CHR ''-'' # dec (nat (- n)) else dec (nat n))"
| "ToString (JStr s) = s"
| "ToString (JObj _) = ''[object Object]''"

text \<open>\<^verbatim>\<open>x?.toString()\<close>: \<^verbatim>\<open>undefined\<close> for a nullish receiver.\<close>

fun opt_toString :: "jsval \<Rightarrow> string option" where
  "opt_toString JUndefined = None"
| "opt_toString JNull = None"
| "opt_toString v = Some (ToString v)"

section \<open>The regular expressions\<close>

text \<open>
  \<^verbatim>\<open>\s\<close> on code units below 256: tab, line feed, vertical tab, form feed, carriage
  return, space and the no-break space.
\<close>

definition ws :: "char \<Rightarrow> bool" where
  "ws c = (c \<in> {CHR 0x09, CHR 0x0A, CHR 0x0B, CHR 0x0C, CHR 0x0D, CHR '' '', CHR 0xA0})"

text \<open>
  The \<^verbatim>\<open>i\<close> flag compares characters by their upper-case form; a pattern of ASCII
  characters is only ever matched by ASCII characters, so the ASCII letters suffice.
\<close>

definition to_upper :: "char \<Rightarrow> char" where
  "to_upper c = (case map_of (zip ''abcdefghijklmnopqrstuvwxyz'' ''ABCDEFGHIJKLMNOPQRSTUVWXYZ'') c of
                   None \<Rightarrow> c | Some u \<Rightarrow> u)"

definition ci_prefix :: "string \<Rightarrow> string \<Rightarrow> bool" where
  "ci_prefix pat s = (map to_upper (take (length pat) s) = map to_upper pat)"

fun contains :: "string \<Rightarrow> string \<Rightarrow> bool" where
  "contains pat [] = (pat = [])"
| "contains pat (c # cs) = (prefix pat (c # cs) \<or> contains pat cs)"

text \<open>
  \<^verbatim>\<open>export const isSSL = /^https|wss/\<close> (line 13), under \<^verbatim>\<open>test\<close>: the alternation
  binds weaker than the anchor, and there is no \<^verbatim>\<open>i\<close> flag.
\<close>

definition isSSL_test :: "string \<Rightarrow> bool" where
  "isSSL_test s = (prefix ''https'' s \<or> contains ''wss'' s)"

text \<open>
  \<^verbatim>\<open>const upgradeHeader = /(^|,)\s*upgrade\s*($|,)/i\<close> (line 8). \<open>upgrade_here\<close> is the
  part after the first group, matched at the head of its argument: neither \<^verbatim>\<open>u\<close> nor a
  comma is white space, so each \<^verbatim>\<open>\s*\<close> takes the whole run of white space.
  The first group holds at the start of the text or consumes a comma anywhere.
\<close>

definition upgrade_here :: "string \<Rightarrow> bool" where
  "upgrade_here s =
     (let s1 = dropWhile ws s in
      ci_prefix ''upgrade'' s1 \<and>
      (case dropWhile ws (drop 7 s1) of [] \<Rightarrow> True | c # _ \<Rightarrow> c = CHR '',''))"

fun after_comma :: "string \<Rightarrow> bool" where
  "after_comma [] = False"
| "after_comma (c # cs) = ((c = CHR '','' \<and> upgrade_here cs) \<or> after_comma cs)"

definition upgradeHeader_test :: "string \<Rightarrow> bool" where
  "upgradeHeader_test s = (upgrade_here s \<or> after_comma s)"

text \<open>
  \<^verbatim>\<open>String.prototype.replace\<close> with a pattern without the \<^verbatim>\<open>g\<close> flag and a callback:
  the leftmost match is replaced by what the callback returns for it, the text around it
  stays. The pattern is given as a matcher at the head of the remaining text, which
  returns the length of the match and what the callback receives.
\<close>

fun replace_first :: "(string \<Rightarrow> (nat \<times> 'm) option) \<Rightarrow> ('m \<Rightarrow> string) \<Rightarrow> string \<Rightarrow> string" where
  "replace_first rx f [] = (case rx [] of None \<Rightarrow> [] | Some (n, m) \<Rightarrow> f m)"
| "replace_first rx f (c # cs) =
     (case rx (c # cs) of
        None \<Rightarrow> c # replace_first rx f cs
      | Some (n, m) \<Rightarrow> f m @ drop n (c # cs))"

text \<open>
  An attribute name made of letters, digits, \<^verbatim>\<open>-\<close> and \<^verbatim>\<open>_\<close> stands for itself inside
  \<^verbatim>\<open>new RegExp(...)\<close>, where the source puts it unescaped. \<open>cookie_clause\<close> is the
  pattern for such a name.
\<close>

definition literal_property :: "string \<Rightarrow> bool" where
  "literal_property p =
     (\<forall>c \<in> set p. c \<in> set ''abcdefghijklmnopqrstuvwxyzABCDEFGHIJKLMNOPQRSTUVWXYZ0123456789-_'')"

text \<open>
  \<^verbatim>\<open>new RegExp("(;\\s*" + property + "=)([^;]+)", 'i')\<close> (line 200) at the head of \<open>s\<close>:
  the match, the first group and the second group.
\<close>

definition cookie_clause :: "string \<Rightarrow> string \<Rightarrow> (nat \<times> string \<times> string \<times> string) option" where
  "cookie_clause property s =
     (case s of
        [] \<Rightarrow> None
      | c # r \<Rightarrow>
          if c \<noteq> CHR '';'' then None
          else
            let sp = takeWhile ws r;
                r1 = dropWhile ws r;
                nm = take (length property) r1;
                r2 = drop (length property) r1
            in if \<not> ci_prefix property r1 then None
               else (case r2 of
                       [] \<Rightarrow> None
                     | e # r3 \<Rightarrow>
                         if e \<noteq> CHR ''='' then None
                         else
                           let previousValue = takeWhile (\<lambda>x. x \<noteq> CHR '';'') r3;
                               prefix_text = c # sp @ nm @ [e]
                           in if previousValue = [] then None
                              else Some (length prefix_text + length previousValue,
                                         prefix_text @ previousValue, prefix_text, previousValue)))"

section \<open>The data model\<close>

text \<open>
  A target is a URL-like object. Its scalar properties (\<^verbatim>\<open>protocol\<close>, \<^verbatim>\<open>port\<close>,
  \<^verbatim>\<open>host\<close>, \<^verbatim>\<open>pathname\<close>, the legacy \<^verbatim>\<open>path\<close>, the TLS material, ...) are
  kept by name; its query container is the ordered list of its entries, or absent.
  Names and values of query entries are held as their UTF-8 bytes.
\<close>

record target =
  attrs :: props
  searchParams :: "(string \<times> string) list option"

text \<open>
  The options of the proxy server that \<^verbatim>\<open>setupOutgoing\<close> reads. \<open>None\<close> is a property
  that is not set; \<open>followRedirects\<close> is \<open>None\<close> also when it is set to something that is
  not an object, which the guard of line 89 treats alike.
\<close>

record options =
  target :: "target option"
  forward :: "target option"
  http_method :: jsval
  headers :: "props option"
  auth :: jsval
  ca :: jsval
  secure :: jsval
  agent :: jsval
  localAddress :: jsval
  followRedirects :: "props option"
  prependPath :: jsval
  toProxy :: jsval
  ignorePath :: jsval
  changeOrigin :: jsval

text \<open>What the helpers read of \<^verbatim>\<open>IncomingMessage\<close>, and of its socket.\<close>

record conn =
  encrypted :: jsval
  pair :: jsval

record request =
  url :: "string option"
  req_method :: jsval
  req_headers :: props
  connection :: "conn option"
  socket :: "conn option"

text \<open>The object being filled: its scalar properties and its \<^verbatim>\<open>headers\<close> object.\<close>

record outgoing =
  out_fields :: props
  out_headers :: props

text \<open>
  What \<^verbatim>\<open>new URL(input, 'http://example.com')\<close> exposes: \<^verbatim>\<open>pathname\<close>, \<^verbatim>\<open>search\<close>
  and the entries of \<^verbatim>\<open>searchParams\<close>.
\<close>

record parsed_url =
  pathname :: string
  search :: string
  entries :: "(string \<times> string) list"

text \<open>
  The two things \<^verbatim>\<open>setupOutgoing\<close> imports: the platform's URL parser applied with
  the fixed base of line 105, and \<^verbatim>\<open>required\<close> of the \<^verbatim>\<open>requires-port\<close> package. Neither
  is part of the repository, so both are parameters; \<open>None\<close> is a call that throws.
\<close>

record platform =
  new_URL :: "string \<Rightarrow> parsed_url option"
  required :: "jsval \<Rightarrow> jsval \<Rightarrow> bool option"

datatype fault = TypeError | InvalidURL | SyntaxError

text \<open>
  A call ends by returning or by throwing; either way the configuration and the object
  being filled are left as the statements executed so far have written them.
\<close>

datatype outcome = Returned options outgoing | Thrown fault options outgoing

text \<open>The \<^verbatim>\<open>forward\<close> argument "to select forward or target": omitted, or \<^verbatim>\<open>'forward'\<close>.\<close>

datatype selector = UseTarget | UseForward

section \<open>URL search parameters\<close>

text \<open>
  \<^verbatim>\<open>URLSearchParams.set(name, value)\<close>: the first entry of that name takes the value
  and the later ones are removed; without such an entry, a new one is appended.
\<close>

fun set_entry :: "string \<Rightarrow> string \<Rightarrow> (string \<times> string) list \<Rightarrow> (string \<times> string) list" where
  "set_entry k v [] = [(k, v)]"
| "set_entry k v (e # es) =
     (if fst e = k then (k, v) # filter (\<lambda>x. fst x \<noteq> k) es else e # set_entry k v es)"

text \<open>
  The \<^verbatim>\<open>application/x-www-form-urlencoded\<close> serializer, byte by byte: letters, digits
  and \<^verbatim>\<open>*-._\<close> stay, a space becomes \<^verbatim>\<open>+\<close>, every other byte is \<^verbatim>\<open>%XX\<close>.
\<close>

definition urlencode_byte :: "char \<Rightarrow> string" where
  "urlencode_byte c =
     (if c \<in> set ''abcdefghijklmnopqrstuvwxyzABCDEFGHIJKLMNOPQRSTUVWXYZ0123456789*-._'' then [c]
      else if c = CHR '' '' then ''+''
      else [CHR ''%'', ''0123456789ABCDEF'' ! (of_char c div 16), ''0123456789ABCDEF'' ! (of_char c mod 16)])"

definition urlencode :: "string \<Rightarrow> string" where
  "urlencode s = concat (map urlencode_byte s)"

fun serialize :: "(string \<times> string) list \<Rightarrow> string" where
  "serialize [] = []"
| "serialize [(k, v)] = urlencode k @ ''='' @ urlencode v"
| "serialize ((k, v) # e # es) = urlencode k @ ''='' @ urlencode v @ ''&'' @ serialize (e # es)"

text \<open>
  \<^verbatim>\<open>reqUrl.searchParams.set(k, v)\<close>: the list is updated and the URL's query is set to
  its serialization, which \<^verbatim>\<open>search\<close> shows with a leading \<^verbatim>\<open>?\<close> unless it is empty.
\<close>

definition searchParams_set :: "parsed_url \<Rightarrow> string \<Rightarrow> string \<Rightarrow> parsed_url" where
  "searchParams_set u k v =
     (let es = set_entry k v (entries u)
      in u\<lparr>entries := es, search := (if serialize es = [] then [] else CHR ''?'' # serialize es)\<rparr>)"

text \<open>Lines 107 to 109: every entry of the target's container is set on the request URL.\<close>

definition merge_query :: "parsed_url \<Rightarrow> (string \<times> string) list \<Rightarrow> parsed_url" where
  "merge_query u es = fold (\<lambda>entry u'. searchParams_set u' (fst entry) (snd entry)) es u"

section \<open>setupOutgoing\<close>

definition pick :: "selector \<Rightarrow> options \<Rightarrow> target option" where
  "pick w opts = (case w of UseTarget \<Rightarrow> target opts | UseForward \<Rightarrow> forward opts)"

definition put :: "selector \<Rightarrow> target \<Rightarrow> options \<Rightarrow> options" where
  "put w t opts = (case w of UseTarget \<Rightarrow> opts\<lparr>target := Some t\<rparr> | UseForward \<Rightarrow> opts\<lparr>forward := Some t\<rparr>)"

text \<open>
  Lines 33 to 42, the writes to the target object: a missing query container becomes an
  empty one, and a truthy legacy \<^verbatim>\<open>path\<close> is moved to \<^verbatim>\<open>pathname\<close> and deleted.
\<close>

definition resolve :: "target \<Rightarrow> target" where
  "resolve t =
     (let t1 = (if searchParams t = None then t\<lparr>searchParams := Some []\<rparr> else t)
      in if truthy (get (attrs t1) ''path'')
         then t1\<lparr>attrs := ((attrs t1)(''pathname'' \<mapsto> get (attrs t1) ''path''))(''path'' := None)\<rparr>
         else t1)"

text \<open>Lines 48 to 50: \<^verbatim>\<open>outgoing[opt] = target[opt]\<close> for each of the eleven names.\<close>

definition copied :: "string list" where
  "copied = [''host'', ''hostname'', ''socketPath'', ''pfx'', ''key'', ''passphrase'', ''cert'',
             ''ca'', ''ciphers'', ''secureProtocol'', ''servername'']"

definition copy_fields :: "target \<Rightarrow> props \<Rightarrow> props" where
  "copy_fields t m = fold (\<lambda>opt m'. m'(opt \<mapsto> get (attrs t) opt)) copied m"

text \<open>Lines 44 to 72, the scalar properties written before the headers are adjusted.\<close>

definition sslEnabled :: "target \<Rightarrow> bool" where
  "sslEnabled t = isSSL_test (ToString (get (attrs t) ''protocol''))"

definition base_fields :: "options \<Rightarrow> request \<Rightarrow> target \<Rightarrow> props \<Rightarrow> props" where
  "base_fields opts req t m0 =
     (let m1 = m0(''port'' \<mapsto> js_or (get (attrs t) ''port'') (JNum (if sslEnabled t then 443 else 80)));
          m2 = copy_fields t m1;
          m3 = m2(''method'' \<mapsto> js_or (http_method opts) (req_method req));
          m4 = (if truthy (auth opts) then m3(''auth'' \<mapsto> auth opts) else m3);
          m5 = (if truthy (ca opts) then m4(''ca'' \<mapsto> ca opts) else m4);
          m6 = (if sslEnabled t
                then m5(''rejectUnauthorized'' \<mapsto> (if secure opts = JUndefined then JBool True else secure opts))
                else m5);
          m7 = m6(''agent'' \<mapsto> js_or (agent opts) (JBool False))
      in m7(''localAddress'' \<mapsto> localAddress opts))"

text \<open>Lines 54 to 58: a copy of the request's headers with the configured ones on top.\<close>

definition merged_headers :: "options \<Rightarrow> request \<Rightarrow> props" where
  "merged_headers opts req = (case headers opts of None \<Rightarrow> req_headers req | Some hs \<Rightarrow> req_headers req ++ hs)"

text \<open>Lines 78 to 83.\<close>

definition connection_header :: "props \<Rightarrow> props \<Rightarrow> props" where
  "connection_header m hs =
     (if \<not> truthy (get m ''agent'')
      then (case get hs ''connection'' of
              JStr c \<Rightarrow> if \<not> upgradeHeader_test c then hs(''connection'' \<mapsto> JStr ''close'') else hs
            | _ \<Rightarrow> hs(''connection'' \<mapsto> JStr ''close''))
      else hs)"

text \<open>Lines 89 to 95.\<close>

definition redirect_fields :: "options \<Rightarrow> props \<Rightarrow> props" where
  "redirect_fields opts m =
     (case followRedirects opts of
        None \<Rightarrow> m
      | Some fr \<Rightarrow> m(''maxRedirects'' \<mapsto> get fr ''maxRedirects'',
                      ''maxBodyLength'' \<mapsto> get fr ''maxBodyLength'',
                      ''agents'' \<mapsto> get fr ''agents'',
                      ''beforeRedirect'' \<mapsto> get fr ''beforeRedirect'',
                      ''trackRedirects'' \<mapsto> get fr ''trackRedirects''))"

text \<open>Line 97; the target is an object here, hence truthy.\<close>

definition targetPath :: "options \<Rightarrow> target \<Rightarrow> jsval" where
  "targetPath opts t =
     (if prependPath opts \<noteq> JBool False then js_or (get (attrs t) ''pathname'') (JStr '''') else JStr '''')"

text \<open>Lines 113 and 120: what the request contributes to the path.\<close>

definition outgoingPath :: "options \<Rightarrow> request \<Rightarrow> parsed_url \<Rightarrow> jsval" where
  "outgoingPath opts req reqUrl =
     (let p = (if \<not> truthy (toProxy opts) then js_or (JStr (pathname reqUrl)) (JStr '''')
               else (case url req of None \<Rightarrow> JUndefined | Some u \<Rightarrow> JStr u))
      in if \<not> truthy (ignorePath opts) then p else JStr '''')"

text \<open>\<^verbatim>\<open>Array.prototype.join('/')\<close> on strings, and \<^verbatim>\<open>replace(/\/+/g, '/')\<close>.\<close>

fun join_slash :: "string list \<Rightarrow> string" where
  "join_slash [] = []"
| "join_slash [x] = x"
| "join_slash (x # y # zs) = x @ CHR ''/'' # join_slash (y # zs)"

fun collapse_slashes :: "string \<Rightarrow> string" where
  "collapse_slashes [] = []"
| "collapse_slashes [c] = [c]"
| "collapse_slashes (a # b # cs) =
     (if a = CHR ''/'' \<and> b = CHR ''/'' then collapse_slashes (b # cs) else a # collapse_slashes (b # cs))"

text \<open>Line 122.\<close>

definition compose_path :: "jsval \<Rightarrow> jsval \<Rightarrow> string \<Rightarrow> string" where
  "compose_path tp rp params =
     collapse_slashes (join_slash (map ToString (filter truthy [tp, rp]))) @ params"

text \<open>Lines 270 to 272: \<^verbatim>\<open>!!~host.indexOf(':')\<close>, which throws on \<^verbatim>\<open>undefined\<close>.\<close>

fun indexOf :: "string \<Rightarrow> char \<Rightarrow> int" where
  "indexOf [] c = - 1"
| "indexOf (x # xs) c = (if x = c then 0 else (let i = indexOf xs c in if i = - 1 then - 1 else i + 1))"

definition hasPort :: "string option \<Rightarrow> fault + bool" where
  "hasPort host = (case host of None \<Rightarrow> Inl TypeError | Some h \<Rightarrow> Inr (- (indexOf h (CHR '':'')) - 1 \<noteq> 0))"

text \<open>
  Lines 124 to 126, for a truthy \<^verbatim>\<open>changeOrigin\<close>: the value of the \<^verbatim>\<open>host\<close> header,
  from \<^verbatim>\<open>target.protocol\<close>, \<^verbatim>\<open>outgoing.host\<close> and \<^verbatim>\<open>outgoing.port\<close>.
  \<^verbatim>\<open>hasPort\<close> is only called when \<^verbatim>\<open>required\<close> has answered true.
\<close>

definition host_header :: "platform \<Rightarrow> jsval \<Rightarrow> jsval \<Rightarrow> jsval \<Rightarrow> fault + jsval" where
  "host_header pf protocol host port =
     (case required pf port protocol of
        None \<Rightarrow> Inl TypeError
      | Some False \<Rightarrow> Inr host
      | Some True \<Rightarrow>
          (case hasPort (opt_toString host) of
             Inl e \<Rightarrow> Inl e
           | Inr True \<Rightarrow> Inr host
           | Inr False \<Rightarrow> Inr (JStr (ToString host @ '':'' @ ToString port))))"

text \<open>
  The whole function (lines 29 to 129). An absent target passes the guard of line 33 and
  throws at line 44, before anything is written.
\<close>

definition setupOutgoing :: "platform \<Rightarrow> outgoing \<Rightarrow> options \<Rightarrow> request \<Rightarrow> selector \<Rightarrow> outcome" where
  "setupOutgoing pf out opts req w =
     (case pick w opts of
        None \<Rightarrow> Thrown TypeError opts out
      | Some t0 \<Rightarrow>
          let t = resolve t0;
              opts' = put w t opts;
              m0 = base_fields opts req t (out_fields out);
              hs = connection_header m0 (merged_headers opts req);
              m = redirect_fields opts m0
          in (case new_URL pf (case url req of None \<Rightarrow> ''undefined'' | Some u \<Rightarrow> u) of
                None \<Rightarrow> Thrown InvalidURL opts' \<lparr>out_fields = m, out_headers = hs\<rparr>
              | Some parsed \<Rightarrow>
                  let reqUrl = merge_query parsed (case searchParams t of None \<Rightarrow> [] | Some es \<Rightarrow> es);
                      m' = m(''path'' \<mapsto> JStr (compose_path (targetPath opts t) (outgoingPath opts req reqUrl) (search reqUrl)))
                  in if truthy (changeOrigin opts)
                     then (case host_header pf (get (attrs t) ''protocol'') (get m' ''host'') (get m' ''port'') of
                             Inl e \<Rightarrow> Thrown e opts' \<lparr>out_fields = m', out_headers = hs\<rparr>
                           | Inr h \<Rightarrow> Returned opts' \<lparr>out_fields = m', out_headers = hs(''host'' \<mapsto> h)\<rparr>)
                     else Returned opts' \<lparr>out_fields = m', out_headers = hs\<rparr>))"

section \<open>The other helpers\<close>

text \<open>
  Line 182: \<^verbatim>\<open>Boolean(req.connection?.encrypted || req.socket?.encrypted ||
  req.connection?.pair || req.socket?.pair)\<close>. The argument is a request or a socket, hence
  an object; each of its two links may be missing.
\<close>

definition opt_chain :: "conn option \<Rightarrow> (conn \<Rightarrow> jsval) \<Rightarrow> jsval" where
  "opt_chain c f = (case c of None \<Rightarrow> JUndefined | Some x \<Rightarrow> f x)"

definition hasEncryptedConnection :: "request \<Rightarrow> bool" where
  "hasEncryptedConnection req =
     truthy (js_or (js_or (js_or (opt_chain (connection req) encrypted)
                                 (opt_chain (socket req) encrypted))
                          (opt_chain (connection req) pair))
                   (opt_chain (socket req) pair))"

text \<open>A \<^verbatim>\<open>Set-Cookie\<close> value: one string, or an array of such values.\<close>

datatype header = HStr string | HArr "header list"

text \<open>
  The callback of lines 200 to 217. The rewrite map is given by the properties that
  \<^verbatim>\<open>in\<close> finds on it; the callback's result is spliced in as it is.
\<close>

definition rewrite_callback :: "props \<Rightarrow> string \<times> string \<times> string \<Rightarrow> string" where
  "rewrite_callback config m =
     (case m of (matched, prefix_text, previousValue) \<Rightarrow>
        (case (case config previousValue of
                 Some v \<Rightarrow> Some v
               | None \<Rightarrow> (case config ''*'' of Some v \<Rightarrow> Some v | None \<Rightarrow> None)) of
           None \<Rightarrow> matched
         | Some newValue \<Rightarrow> if truthy newValue then prefix_text @ ToString newValue else []))"

text \<open>
  The pattern of line 200 for any attribute name. A name that is more than plain text is
  pattern syntax to the platform's regular-expression engine, which is a parameter: it
  gives the matcher for such a name, or \<open>None\<close> when \<^verbatim>\<open>new RegExp\<close> throws.
\<close>

type_synonym matcher = "string \<Rightarrow> (nat \<times> string \<times> string \<times> string) option"

definition cookie_pattern :: "(string \<Rightarrow> matcher option) \<Rightarrow> string \<Rightarrow> matcher option" where
  "cookie_pattern RegExp property =
     (if literal_property property then Some (cookie_clause property) else RegExp property)"



section \<open>A platform for the examples\<close>

text \<open>
  Modelled from the spec: \<^verbatim>\<open>required(port, protocol)\<close> comes from the \<^verbatim>\<open>requires-port\<close>
  package, which is not under \<^verbatim>\<open>src/\<close>. The spec has the port "non-default for the
  target's scheme (per a standard scheme to default-port table)": the scheme is the
  protocol up to its first colon, a port that reads as zero or as no number needs no
  mention, and the table is 80 for http and ws, 443 for https and wss, 21 for ftp, 70 for
  gopher, none for file. A port given as a string is read when it is a plain run of
  decimal digits; a protocol that is not a string makes the call throw.
\<close>

definition digits_value :: "string \<Rightarrow> int" where
  "digits_value s = foldl (\<lambda>a c. 10 * a + (int (of_char c) - 48)) 0 s"

fun to_number :: "jsval \<Rightarrow> int option" where
  "to_number JUndefined = None"
| "to_number JNull = Some 0"
| "to_number (JBool b) = Some (if b then 1 else 0)"
| "to_number (JNum n) = Some n"
| "to_number (JStr s) = (if \<forall>c \<in> set s. c \<in> set ''0123456789'' then Some (digits_value s) else None)"
| "to_number (JObj _) = None"

definition requires_port :: "jsval \<Rightarrow> jsval \<Rightarrow> bool option" where
  "requires_port port protocol =
     (case protocol of
        JStr p \<Rightarrow>
          (let scheme = takeWhile (\<lambda>c. c \<noteq> CHR '':'') p
           in case to_number port of
                None \<Rightarrow> Some False
              | Some n \<Rightarrow>
                  if n = 0 then Some False
                  else if scheme = ''http'' \<or> scheme = ''ws'' then Some (n \<noteq> 80)
                  else if scheme = ''https'' \<or> scheme = ''wss'' then Some (n \<noteq> 443)
                  else if scheme = ''ftp'' then Some (n \<noteq> 21)
                  else if scheme = ''gopher'' then Some (n \<noteq> 70)
                  else if scheme = ''file'' then Some False
                  else Some True)
      | _ \<Rightarrow> None)"

text \<open>
  The URL parser's results for the request targets that the examples use: the path up
  to the question mark, the query with it, and the query's entries.
\<close>

definition sample_URL :: "string \<Rightarrow> parsed_url option" where
  "sample_URL =
     [''/'' \<mapsto> \<lparr>pathname = ''/'', search = '''', entries = []\<rparr>,
      ''/api/users'' \<mapsto> \<lparr>pathname = ''/api/users'', search = '''', entries = []\<rparr>,
      ''/?a=1&b=2'' \<mapsto> \<lparr>pathname = ''/'', search = ''?a=1&b=2'', entries = [(''a'', ''1''), (''b'', ''2'')]\<rparr>]"

definition node :: platform where
  "node = \<lparr>new_URL = sample_URL, required = requires_port\<rparr>"

text \<open>An object with nothing set, a target at a host, and a bare request for a path.\<close>

definition no_options :: options where
  "no_options =
     \<lparr>target = None, forward = None, http_method = JUndefined, headers = None, auth = JUndefined,
      ca = JUndefined, secure = JUndefined, agent = JUndefined, localAddress = JUndefined,
      followRedirects = None, prependPath = JUndefined, toProxy = JUndefined,
      ignorePath = JUndefined, changeOrigin = JUndefined\<rparr>"

definition empty_outgoing :: outgoing where
  "empty_outgoing = \<lparr>out_fields = Map.empty, out_headers = Map.empty\<rparr>"

definition plain_request :: "string \<Rightarrow> (string \<times> jsval) list \<Rightarrow> request" where
  "plain_request u hs =
     \<lparr>url = Some u, req_method = JStr ''GET'', req_headers = map_of hs, connection = None, socket = None\<rparr>"

text \<open>The selected target's properties and query container, as a caller reads them.\<close>

definition target_attrs :: "options \<Rightarrow> props" where
  "target_attrs opts = (case target opts of None \<Rightarrow> Map.empty | Some t \<Rightarrow> attrs t)"

definition target_query :: "options \<Rightarrow> (string \<times> string) list option" where
  "target_query opts = (case target opts of None \<Rightarrow> None | Some t \<Rightarrow> searchParams t)"

text \<open>How a call ended, and the state it left behind.\<close>

fun returned :: "outcome \<Rightarrow> bool" where
  "returned (Returned _ _) = True"
| "returned (Thrown _ _ _) = False"

fun config_after :: "outcome \<Rightarrow> options" where
  "config_after (Returned opts _) = opts"
| "config_after (Thrown _ opts _) = opts"

fun outgoing_after :: "outcome \<Rightarrow> outgoing" where
  "outgoing_after (Returned _ out) = out"
| "outgoing_after (Thrown _ _ out) = out"

fun fault_of :: "outcome \<Rightarrow> fault option" where
  "fault_of (Returned _ _) = None"
| "fault_of (Thrown e _ _) = Some e"

definition an_object :: "(string \<times> jsval) list \<Rightarrow> (string \<times> string) list option \<Rightarrow> target" where
  "an_object kvs q = \<lparr>attrs = map_of kvs, searchParams = q\<rparr>"

definition https_options :: options where
  "https_options =
     no_options\<lparr>target := Some (an_object [(''protocol'', JStr ''https:''), (''host'', JStr ''api.example.com'')] (Some []))\<rparr>"

definition upper_case_options :: options where
  "upper_case_options =
     no_options\<lparr>target := Some (an_object [(''protocol'', JStr ''HTTPS:''), (''host'', JStr ''api.example.com'')] (Some []))\<rparr>"

definition ca_options :: options where
  "ca_options =
     no_options\<lparr>ca := JStr ''CONFIG-CA'',
       target := Some (an_object [(''protocol'', JStr ''https:''), (''host'', JStr ''api.example.com''),
                                  (''ca'', JStr ''TARGET-CA'')] (Some []))\<rparr>"

definition legacy_options :: options where
  "legacy_options =
     no_options\<lparr>target := Some (an_object [(''protocol'', JStr ''http:''), (''host'', JStr ''api.example.com''),
                                             (''path'', JStr ''/api'')] None)\<rparr>"

definition no_prepend_options :: options where
  "no_prepend_options =
     no_options\<lparr>prependPath := JBool False,
       target := Some (an_object [(''protocol'', JStr ''http:''), (''host'', JStr ''api.example.com''),
                                  (''pathname'', JStr ''/api'')] (Some []))\<rparr>"

definition origin_options :: "string \<Rightarrow> string \<Rightarrow> jsval \<Rightarrow> options" where
  "origin_options protocol host port =
     no_options\<lparr>changeOrigin := JBool True,
       target := Some (an_object [(''protocol'', JStr protocol), (''host'', JStr host), (''port'', port)] (Some []))\<rparr>"

definition hostless_options :: options where
  "hostless_options =
     no_options\<lparr>changeOrigin := JBool True,
       target := Some (an_object [(''protocol'', JStr ''http:''), (''hostname'', JStr ''localhost''),
                                  (''port'', JNum 8080)] (Some []))\<rparr>"

text \<open>
  The spec's reading of the pattern of line 8: the word \<^verbatim>\<open>upgrade\<close> in any letter case,
  with optional white space around it, standing between the start of the text or a comma
  and the end of the text or a comma.
\<close>

definition upgrade_word :: "string \<Rightarrow> bool" where
  "upgrade_word u = (map to_upper u = ''UPGRADE'')"

definition comma :: char where
  "comma = CHR '',''"

definition upgrade_token :: "string \<Rightarrow> bool" where
  "upgrade_token s =
     (\<exists>pre w1 u w2 post.
        s = pre @ w1 @ u @ w2 @ post \<and> (pre = [] \<or> last pre = comma) \<and>
        list_all ws w1 \<and> upgrade_word u \<and> list_all ws w2 \<and>
        (post = [] \<or> hd post = comma))"

definition upgrade_options :: options where
  "upgrade_options =
     no_options\<lparr>target := Some (an_object [(''protocol'', JStr ''http:''), (''host'', JStr ''api.example.com'')] (Some []))\<rparr>"

text \<open>
  Two orders of keys, for stating where the merged query puts what. \<open>keep_first S xs\<close> is
  \<open>xs\<close> without every later occurrence of a key of \<open>S\<close>; \<open>first_occurrences xs\<close> lists
  the keys of \<open>xs\<close> in the order in which they first appear.
\<close>

fun keep_first_from :: "'a set \<Rightarrow> 'a set \<Rightarrow> 'a list \<Rightarrow> 'a list" where
  "keep_first_from S seen [] = []"
| "keep_first_from S seen (x # xs) =
     (if x \<in> S \<and> x \<in> seen then keep_first_from S seen xs
      else x # keep_first_from S (insert x seen) xs)"

definition keep_first :: "'a set \<Rightarrow> 'a list \<Rightarrow> 'a list" where
  "keep_first S xs = keep_first_from S {} xs"

fun first_occurrences :: "'a list \<Rightarrow> 'a list" where
  "first_occurrences [] = []"
| "first_occurrences (x # xs) = x # filter (\<lambda>y. y \<noteq> x) (first_occurrences xs)"

fun remove_later :: "'a \<Rightarrow> 'a list \<Rightarrow> 'a list" where
  "remove_later k [] = []"
| "remove_later k (x # xs) = (if x = k then x # filter (\<lambda>y. y \<noteq> k) xs else x # remove_later k xs)"

text \<open>
  The order the spec describes for the merged query: the keys the target sets come first,
  in the target's insertion order, and only keys the target does not set follow.
\<close>

definition target_keys_first :: "(string \<times> string) list \<Rightarrow> (string \<times> string) list \<Rightarrow> bool" where
  "target_keys_first T M =
     (take (length (first_occurrences (map fst T))) (map fst M) = first_occurrences (map fst T) \<and>
      set (drop (length (first_occurrences (map fst T))) (map fst M)) \<inter> set (map fst T) = {})"

definition query_options :: options where
  "query_options =
     no_options\<lparr>target := Some (an_object [(''protocol'', JStr ''http:''), (''host'', JStr ''api.example.com'')]
                                            (Some [(''b'', ''3'')]))\<rparr>"









text \<open>
  The engine's matcher for the attribute name \<^verbatim>\<open>.\<close>, that is for
  \<^verbatim>\<open>/(;\s*.=)([^;]+)/i\<close>, at the head of \<open>s\<close>: the dot takes any one character that
  is not a line end, so the white space before it is given up from the right until the
  rest matches. The sample engine knows this one name.
\<close>

definition dot_attempt :: "string \<Rightarrow> nat \<Rightarrow> (nat \<times> string \<times> string \<times> string) option" where
  "dot_attempt r k =
     (case drop k r of
        d # e # r3 \<Rightarrow>
          if d \<noteq> CHR 0x0A \<and> d \<noteq> CHR 0x0D \<and> e = CHR ''='' \<and> takeWhile (\<lambda>x. x \<noteq> CHR '';'') r3 \<noteq> []
          then Some (k + 3 + length (takeWhile (\<lambda>x. x \<noteq> CHR '';'') r3),
                     CHR '';'' # take k r @ [d, e] @ takeWhile (\<lambda>x. x \<noteq> CHR '';'') r3,
                     CHR '';'' # take k r @ [d, e],
                     takeWhile (\<lambda>x. x \<noteq> CHR '';'') r3)
          else None
      | _ \<Rightarrow> None)"

fun dot_backtrack :: "string \<Rightarrow> nat \<Rightarrow> (nat \<times> string \<times> string \<times> string) option" where
  "dot_backtrack r 0 = dot_attempt r 0"
| "dot_backtrack r (Suc k) =
     (case dot_attempt r (Suc k) of Some m \<Rightarrow> Some m | None \<Rightarrow> dot_backtrack r k)"

definition dot_clause :: matcher where
  "dot_clause s =
     (case s of
        [] \<Rightarrow> None
      | c # r \<Rightarrow> if c \<noteq> CHR '';'' then None else dot_backtrack r (length (takeWhile ws r)))"

definition sample_RegExp :: "string \<Rightarrow> matcher option" where
  "sample_RegExp property = (if property = ''.'' then Some dot_clause else None)"

section \<open>Objects behind references\<close>

text \<open>
  Which objects a call writes can only be said where objects have an identity. Here an
  object lives in a cell of a store and \<open>JObj a\<close> is the reference to the cell at address
  \<open>a\<close>: a plain object with its own properties, an array with its elements, or a
  \<^verbatim>\<open>URLSearchParams\<close> with its entries. \<^verbatim>\<open>new\<close> and the literals \<^verbatim>\<open>{}\<close> and \<^verbatim>\<open>[]\<close> take
  the next free address. The functions of \<^verbatim>\<open>common.ts\<close> follow once more, statement by
  statement, every read and every write going through the store.
\<close>

datatype cell = Object props | Elems "jsval list" | Params "(string \<times> string) list"

type_synonym store = "cell list"

definition alloc :: "store \<Rightarrow> cell \<Rightarrow> nat \<times> store" where
  "alloc s c = (length s, s @ [c])"

definition is_object :: "store \<Rightarrow> jsval \<Rightarrow> bool" where
  "is_object s x =
     (case x of
        JObj a \<Rightarrow> a < length s \<and> (case s ! a of Object m \<Rightarrow> True | _ \<Rightarrow> False)
      | _ \<Rightarrow> False)"

definition fields_at :: "store \<Rightarrow> jsval \<Rightarrow> props" where
  "fields_at s x =
     (case x of
        JObj a \<Rightarrow> (if a < length s then (case s ! a of Object m \<Rightarrow> m | _ \<Rightarrow> Map.empty) else Map.empty)
      | _ \<Rightarrow> Map.empty)"

text \<open>\<^verbatim>\<open>x.k\<close> for an \<open>x\<close> that is neither \<^verbatim>\<open>undefined\<close> nor \<^verbatim>\<open>null\<close>.\<close>

definition rd :: "store \<Rightarrow> jsval \<Rightarrow> string \<Rightarrow> jsval" where
  "rd s x k = get (fields_at s x) k"

definition nullish :: "jsval \<Rightarrow> bool" where
  "nullish x = (x = JUndefined \<or> x = JNull)"

text \<open>\<^verbatim>\<open>x?.k\<close>.\<close>

definition opt_rd :: "store \<Rightarrow> jsval \<Rightarrow> string \<Rightarrow> jsval" where
  "opt_rd s x k = (if nullish x then JUndefined else rd s x k)"

text \<open>
  The three writes of the source, \<^verbatim>\<open>x.k = v\<close>, \<^verbatim>\<open>delete x.k\<close> and
  \<^verbatim>\<open>Object.assign(x, y)\<close>, change the properties of the object \<open>x\<close> refers to, in its cell.
\<close>

definition update_fields :: "store \<Rightarrow> jsval \<Rightarrow> (props \<Rightarrow> props) \<Rightarrow> store" where
  "update_fields s x f =
     (case x of
        JObj a \<Rightarrow> if is_object s x then s[a := Object (f (fields_at s x))] else s
      | _ \<Rightarrow> s)"

definition wr :: "store \<Rightarrow> jsval \<Rightarrow> string \<Rightarrow> jsval \<Rightarrow> store" where
  "wr s x k v = update_fields s x (\<lambda>m. m(k \<mapsto> v))"

definition unset :: "store \<Rightarrow> jsval \<Rightarrow> string \<Rightarrow> store" where
  "unset s x k = update_fields s x (\<lambda>m. m(k := None))"

definition assign :: "store \<Rightarrow> jsval \<Rightarrow> jsval \<Rightarrow> store" where
  "assign s x y = update_fields s x (\<lambda>m. m ++ fields_at s y)"

text \<open>The entries of a \<^verbatim>\<open>URLSearchParams\<close>, and the elements of an array.\<close>

definition entries_at :: "store \<Rightarrow> jsval \<Rightarrow> (string \<times> string) list option" where
  "entries_at s x =
     (case x of
        JObj a \<Rightarrow> (if a < length s then (case s ! a of Params es \<Rightarrow> Some es | _ \<Rightarrow> None) else None)
      | _ \<Rightarrow> None)"

definition elems_at :: "store \<Rightarrow> jsval \<Rightarrow> jsval list option" where
  "elems_at s x =
     (case x of
        JObj a \<Rightarrow> (if a < length s then (case s ! a of Elems xs \<Rightarrow> Some xs | _ \<Rightarrow> None) else None)
      | _ \<Rightarrow> None)"

text \<open>
  How a call ends: with a result, with a throw, or with the call stack used up, which is
  where a recursion that does not end ends.
\<close>

datatype 'a completion = Done 'a | Raised fault | Exhausted

subsection \<open>setupOutgoing on the store\<close>

text \<open>The key of line 31: \<^verbatim>\<open>forward || 'target'\<close>.\<close>

definition selected :: "selector \<Rightarrow> string" where
  "selected w = (case w of UseTarget \<Rightarrow> ''target'' | UseForward \<Rightarrow> ''forward'')"

text \<open>Lines 34 to 41, for a target that is a reference.\<close>

definition normalise_target :: "store \<Rightarrow> jsval \<Rightarrow> store" where
  "normalise_target s tgt =
     (let s1 = (if \<not> truthy (rd s tgt ''searchParams'')
                then (case alloc s (Params []) of (p, s') \<Rightarrow> wr s' tgt ''searchParams'' (JObj p))
                else s)
      in if truthy (rd s1 tgt ''path'')
         then unset (wr s1 tgt ''pathname'' (rd s1 tgt ''path'')) tgt ''path''
         else s1)"

text \<open>Lines 46 to 50.\<close>

definition write_target_fields :: "store \<Rightarrow> jsval \<Rightarrow> jsval \<Rightarrow> bool \<Rightarrow> store" where
  "write_target_fields s out tgt ssl =
     fold (\<lambda>opt s'. wr s' out opt (rd s' tgt opt)) copied
       (wr s out ''port'' (js_or (rd s tgt ''port'') (JNum (if ssl then 443 else 80))))"

text \<open>Lines 53 to 58: \<^verbatim>\<open>Object.assign({}, req.headers)\<close> fills a new object.\<close>

definition write_headers :: "store \<Rightarrow> jsval \<Rightarrow> jsval \<Rightarrow> jsval \<Rightarrow> store" where
  "write_headers s out opts req =
     (let s1 = wr s out ''method'' (js_or (rd s opts ''method'') (rd s req ''method''));
          s2 = (case alloc s1 (Object (fields_at s1 (rd s1 req ''headers''))) of
                  (h, s') \<Rightarrow> wr s' out ''headers'' (JObj h))
      in if truthy (rd s2 opts ''headers'')
         then assign s2 (rd s2 out ''headers'') (rd s2 opts ''headers'')
         else s2)"

text \<open>Lines 60 to 72.\<close>

definition write_options_fields :: "store \<Rightarrow> jsval \<Rightarrow> jsval \<Rightarrow> bool \<Rightarrow> store" where
  "write_options_fields s out opts ssl =
     (let s1 = (if truthy (rd s opts ''auth'') then wr s out ''auth'' (rd s opts ''auth'') else s);
          s2 = (if truthy (rd s1 opts ''ca'') then wr s1 out ''ca'' (rd s1 opts ''ca'') else s1);
          s3 = (if ssl
                then wr s2 out ''rejectUnauthorized''
                       (if rd s2 opts ''secure'' = JUndefined then JBool True else rd s2 opts ''secure'')
                else s2);
          s4 = wr s3 out ''agent'' (js_or (rd s3 opts ''agent'') (JBool False))
      in wr s4 out ''localAddress'' (rd s4 opts ''localAddress''))"

text \<open>Lines 78 to 83.\<close>

definition close_connection :: "store \<Rightarrow> jsval \<Rightarrow> store" where
  "close_connection s out =
     (if \<not> truthy (rd s out ''agent'')
      then (let s1 = (if truthy (rd s out ''headers'')
                      then wr s out ''headers'' (rd s out ''headers'')
                      else (case alloc s (Object Map.empty) of (h, s') \<Rightarrow> wr s' out ''headers'' (JObj h)))
            in if (case rd s1 (rd s1 out ''headers'') ''connection'' of
                     JStr c \<Rightarrow> \<not> upgradeHeader_test c
                   | _ \<Rightarrow> True)
               then wr s1 (rd s1 out ''headers'') ''connection'' (JStr ''close'')
               else s1)
      else s)"

text \<open>Lines 89 to 95; a truthy value of type \<^verbatim>\<open>object\<close> is a reference.\<close>

definition is_reference :: "jsval \<Rightarrow> bool" where
  "is_reference x = (case x of JObj a \<Rightarrow> True | _ \<Rightarrow> False)"

definition write_redirects :: "store \<Rightarrow> jsval \<Rightarrow> jsval \<Rightarrow> store" where
  "write_redirects s out opts =
     (if is_reference (rd s opts ''followRedirects'')
      then fold (\<lambda>k s'. wr s' out k (rd s' (rd s' opts ''followRedirects'') k))
             [''maxRedirects'', ''maxBodyLength'', ''agents'', ''beforeRedirect'', ''trackRedirects''] s
      else s)"

text \<open>
  Lines 97 to 122. The URL of line 105 is a local object that nothing else refers to; it
  is kept as a value. Line 107 throws when the target has no \<^verbatim>\<open>searchParams\<close> to ask
  for entries, as a target that is a string has none.
\<close>

definition write_path :: "platform \<Rightarrow> store \<Rightarrow> jsval \<Rightarrow> jsval \<Rightarrow> jsval \<Rightarrow> jsval \<Rightarrow> store \<times> unit completion" where
  "write_path pf s out opts req tgt =
     (let tp = (if truthy tgt \<and> rd s opts ''prependPath'' \<noteq> JBool False
                then js_or (rd s tgt ''pathname'') (JStr '''') else JStr '''')
      in case new_URL pf (ToString (rd s req ''url'')) of
           None \<Rightarrow> (s, Raised InvalidURL)
         | Some parsed \<Rightarrow>
             (case entries_at s (rd s tgt ''searchParams'') of
                None \<Rightarrow> (s, Raised TypeError)
              | Some es \<Rightarrow>
                  let reqUrl = merge_query parsed es;
                      rp = (if \<not> truthy (rd s opts ''toProxy'')
                            then js_or (JStr (pathname reqUrl)) (JStr '''')
                            else rd s req ''url'');
                      rp' = (if \<not> truthy (rd s opts ''ignorePath'') then rp else JStr '''')
                  in (wr s out ''path'' (JStr (compose_path tp rp' (search reqUrl))), Done ())))"

text \<open>Lines 124 to 126.\<close>

definition write_host :: "platform \<Rightarrow> store \<Rightarrow> jsval \<Rightarrow> jsval \<Rightarrow> jsval \<Rightarrow> store \<times> unit completion" where
  "write_host pf s out opts tgt =
     (if truthy (rd s opts ''changeOrigin'')
      then (case host_header pf (rd s tgt ''protocol'') (rd s out ''host'') (rd s out ''port'') of
              Inl e \<Rightarrow> (s, Raised e)
            | Inr h \<Rightarrow> (wr s (rd s out ''headers'') ''host'' h, Done ()))
      else (s, Done ()))"

text \<open>
  The whole function: the store it leaves, and the reference it returns unless it throws.
  \<^verbatim>\<open>typeof null\<close> is \<^verbatim>\<open>'object'\<close>, so a \<^verbatim>\<open>null\<close> target throws at line 34 and an
  \<^verbatim>\<open>undefined\<close> one at line 44, both before the first write.
\<close>

definition setupOutgoing_st :: "platform \<Rightarrow> store \<Rightarrow> jsval \<Rightarrow> jsval \<Rightarrow> jsval \<Rightarrow> selector \<Rightarrow> store \<times> jsval completion" where
  "setupOutgoing_st pf s out opts req w =
     (let tgt = rd s opts (selected w)
      in if nullish tgt then (s, Raised TypeError)
         else
           let s1 = (if is_reference tgt then normalise_target s tgt else s);
               ssl = isSSL_test (ToString (rd s1 tgt ''protocol''));
               s2 = write_target_fields s1 out tgt ssl;
               s3 = write_headers s2 out opts req;
               s4 = write_options_fields s3 out opts ssl;
               s5 = close_connection s4 out;
               s6 = write_redirects s5 out opts
           in (case write_path pf s6 out opts req tgt of
                 (s7, Done u) \<Rightarrow>
                   (case write_host pf s7 out opts tgt of
                      (s8, Done u') \<Rightarrow> (s8, Done out)
                    | (s8, Raised e) \<Rightarrow> (s8, Raised e)
                    | (s8, Exhausted) \<Rightarrow> (s8, Exhausted))
               | (s7, Raised e) \<Rightarrow> (s7, Raised e)
               | (s7, Exhausted) \<Rightarrow> (s7, Exhausted)))"

subsection \<open>The cookie functions and the helpers on the store\<close>

text \<open>
  \<^verbatim>\<open>Array.prototype.map\<close>: the length is read once; each element is read when its turn
  comes, and a callback that does not return ends the loop.
\<close>

fun map_from :: "(store \<Rightarrow> jsval \<Rightarrow> store \<times> jsval completion) \<Rightarrow> jsval \<Rightarrow> nat \<Rightarrow> nat \<Rightarrow> store \<Rightarrow> store \<times> jsval list completion" where
  "map_from f xs 0 i s = (s, Done [])"
| "map_from f xs (Suc n) i s =
     (case f s (case elems_at s xs of
                  Some es \<Rightarrow> if i < length es then es ! i else JUndefined
                | None \<Rightarrow> JUndefined) of
        (s1, Done y) \<Rightarrow>
          (case map_from f xs n (Suc i) s1 of
             (s2, Done ys) \<Rightarrow> (s2, Done (y # ys))
           | (s2, Raised e) \<Rightarrow> (s2, Raised e)
           | (s2, Exhausted) \<Rightarrow> (s2, Exhausted))
      | (s1, Raised e) \<Rightarrow> (s1, Raised e)
      | (s1, Exhausted) \<Rightarrow> (s1, Exhausted))"

text \<open>
  The shape that \<^verbatim>\<open>rewriteCookieProperty\<close> and \<^verbatim>\<open>removeCookieProperty\<close> share: an array
  is mapped into a new array by the function itself, anything else must have a
  \<^verbatim>\<open>replace\<close>, which strings have. \<open>d\<close> is the depth of call stack that is left.
\<close>

fun on_header :: "nat \<Rightarrow> (store \<Rightarrow> string \<Rightarrow> jsval completion) \<Rightarrow> store \<Rightarrow> jsval \<Rightarrow> store \<times> jsval completion" where
  "on_header 0 f s header = (s, Exhausted)"
| "on_header (Suc d) f s header =
     (case elems_at s header of
        Some es \<Rightarrow>
          (case map_from (\<lambda>s' headerElement. on_header d f s' headerElement) header (length es) 0 s of
             (s1, Done ys) \<Rightarrow> (case alloc s1 (Elems ys) of (a, s2) \<Rightarrow> (s2, Done (JObj a)))
           | (s1, Raised e) \<Rightarrow> (s1, Raised e)
           | (s1, Exhausted) \<Rightarrow> (s1, Exhausted))
      | None \<Rightarrow>
          (case header of
             JStr h \<Rightarrow> (s, f s h)
           | _ \<Rightarrow> (s, Raised TypeError)))"

text \<open>Whether \<^verbatim>\<open>replace\<close> finds a match, and so calls its callback.\<close>

fun found :: "(string \<Rightarrow> 'm option) \<Rightarrow> string \<Rightarrow> bool" where
  "found rx [] = (rx [] \<noteq> None)"
| "found rx (c # cs) = (rx (c # cs) \<noteq> None \<or> found rx cs)"

text \<open>
  Lines 200 to 217 on one string. The callback asks \<^verbatim>\<open>in config\<close>, which throws unless
  \<^verbatim>\<open>config\<close> is an object.
\<close>

definition rewrite_string :: "(string \<Rightarrow> matcher option) \<Rightarrow> jsval \<Rightarrow> string \<Rightarrow> store \<Rightarrow> string \<Rightarrow> jsval completion" where
  "rewrite_string RegExp config property s h =
     (case cookie_pattern RegExp property of
        None \<Rightarrow> Raised SyntaxError
      | Some rx \<Rightarrow>
          if is_reference config then Done (JStr (replace_first rx (rewrite_callback (fields_at s config)) h))
          else if found rx h then Raised TypeError
          else Done (JStr h))"

definition rewriteCookieProperty_st :: "nat \<Rightarrow> (string \<Rightarrow> matcher option) \<Rightarrow> store \<Rightarrow> jsval \<Rightarrow> jsval \<Rightarrow> string \<Rightarrow> store \<times> jsval completion" where
  "rewriteCookieProperty_st d RegExp s header config property =
     on_header d (rewrite_string RegExp config property) s header"

text \<open>
  \<^verbatim>\<open>new RegExp(';\\s*' + property + '[^;]*', 'i')\<close> (line 235) at the head of \<open>s\<close>, for a
  name that stands for itself; it has no groups.
\<close>

definition cookie_directive :: "string \<Rightarrow> string \<Rightarrow> (nat \<times> string \<times> string \<times> string) option" where
  "cookie_directive property s =
     (case s of
        [] \<Rightarrow> None
      | c # r \<Rightarrow>
          if c \<noteq> CHR '';'' then None
          else
            let sp = takeWhile ws r;
                r1 = dropWhile ws r;
                nm = take (length property) r1;
                rest = takeWhile (\<lambda>x. x \<noteq> CHR '';'') (drop (length property) r1)
            in if \<not> ci_prefix property r1 then None
               else Some (length (c # sp @ nm @ rest), c # sp @ nm @ rest, [], []))"

definition directive_pattern :: "(string \<Rightarrow> matcher option) \<Rightarrow> string \<Rightarrow> matcher option" where
  "directive_pattern RegExp property =
     (if literal_property property then Some (cookie_directive property) else RegExp property)"

definition remove_string :: "(string \<Rightarrow> matcher option) \<Rightarrow> string \<Rightarrow> store \<Rightarrow> string \<Rightarrow> jsval completion" where
  "remove_string RegExp property s h =
     (case directive_pattern RegExp property of
        None \<Rightarrow> Raised SyntaxError
      | Some rx \<Rightarrow> Done (JStr (replace_first rx (\<lambda>m. []) h)))"

definition removeCookieProperty_st :: "nat \<Rightarrow> (string \<Rightarrow> matcher option) \<Rightarrow> store \<Rightarrow> jsval \<Rightarrow> string \<Rightarrow> store \<times> jsval completion" where
  "removeCookieProperty_st d RegExp s header property =
     on_header d (remove_string RegExp property) s header"

text \<open>
  Lines 248 to 259. \<^verbatim>\<open>[]\<close> and \<^verbatim>\<open>[x]\<close> are new arrays, and so is the result of
  \<^verbatim>\<open>concat\<close>, which holds the elements of both.
\<close>

definition or_empty_array :: "store \<Rightarrow> jsval \<Rightarrow> store \<times> jsval" where
  "or_empty_array s x =
     (if truthy x then (s, x) else (case alloc s (Elems []) of (a, s') \<Rightarrow> (s', JObj a)))"

definition as_array :: "store \<Rightarrow> jsval \<Rightarrow> store \<times> jsval" where
  "as_array s x =
     (if elems_at s x = None then (case alloc s (Elems [x]) of (a, s') \<Rightarrow> (s', JObj a)) else (s, x))"

definition mergeSetCookie_st :: "store \<Rightarrow> jsval \<Rightarrow> jsval \<Rightarrow> store \<times> jsval" where
  "mergeSetCookie_st s setCookie upstreamSetCookie =
     (case or_empty_array s setCookie of (s1, existingCookieArray) \<Rightarrow>
      case or_empty_array s1 upstreamSetCookie of (s2, upstreamCookieArray) \<Rightarrow>
      case as_array s2 existingCookieArray of (s3, existingCookieArray') \<Rightarrow>
      case as_array s3 upstreamCookieArray of (s4, upstreamCookieArray') \<Rightarrow>
      case alloc s4 (Elems (the (elems_at s4 existingCookieArray') @ the (elems_at s4 upstreamCookieArray'))) of
        (a, s5) \<Rightarrow> (s5, JObj a))"

text \<open>Line 182 \<^verbatim>\<open>hasEncryptedConnection\<close>, reading the request through its reference.\<close>

definition hasEncryptedConnection_st :: "store \<Rightarrow> jsval \<Rightarrow> store \<times> bool" where
  "hasEncryptedConnection_st s req =
     (s, truthy (js_or (js_or (js_or (opt_rd s (rd s req ''connection'') ''encrypted'')
                                     (opt_rd s (rd s req ''socket'') ''encrypted''))
                              (opt_rd s (rd s req ''connection'') ''pair''))
                       (opt_rd s (rd s req ''socket'') ''pair'')))"

text \<open>
  \<^verbatim>\<open>host.match(/:(\d+)/)\<close>: the digits after the first colon that has a digit behind it.
\<close>

definition digit :: "char \<Rightarrow> bool" where
  "digit c = (c \<in> set ''0123456789'')"

fun port_match :: "string \<Rightarrow> string option" where
  "port_match [] = None"
| "port_match (c # cs) =
     (if c = CHR '':'' \<and> takeWhile digit cs \<noteq> [] then Some (takeWhile digit cs) else port_match cs)"

text \<open>Lines 165 to 169.\<close>

definition getPort_st :: "store \<Rightarrow> jsval \<Rightarrow> store \<times> jsval completion" where
  "getPort_st s req =
     (if nullish (rd s req ''headers'') then (s, Raised TypeError)
      else
        let host = rd s (rd s req ''headers'') ''host'';
            by_connection = (case hasEncryptedConnection_st s req of
                               (s', e) \<Rightarrow> (s', Done (JStr (if e then ''443'' else ''80''))))
        in if truthy host
           then (case host of
                   JStr h \<Rightarrow> (case port_match h of
                                Some p \<Rightarrow> (s, Done (JStr p))
                              | None \<Rightarrow> by_connection)
                 | _ \<Rightarrow> (s, Raised TypeError))
           else by_connection)"

text \<open>
  What it is for a call to write no object but those of \<open>X\<close>: every cell that was there
  before the call, the ones \<open>X\<close> refers to apart, holds after the call what it held before.
\<close>

definition only_writes :: "jsval set \<Rightarrow> store \<Rightarrow> store \<Rightarrow> bool" where
  "only_writes X s s' = (length s \<le> length s' \<and> (\<forall>a<length s. JObj a \<notin> X \<longrightarrow> s' ! a = s ! a))"

text \<open>
  What lines 34 to 41 do to a target object, said of the stores before and after a call:
  a \<^verbatim>\<open>searchParams\<close> that is not truthy is now a new, empty container; a truthy
  \<^verbatim>\<open>path\<close> is now the \<^verbatim>\<open>pathname\<close> and no property any more; every other property is
  what it was.
\<close>

definition normalised_in_place :: "store \<Rightarrow> jsval \<Rightarrow> store \<Rightarrow> bool" where
  "normalised_in_place s tgt s' =
     (rd s' tgt ''searchParams'' =
        (if truthy (rd s tgt ''searchParams'') then rd s tgt ''searchParams'' else JObj (length s)) \<and>
      (\<not> truthy (rd s tgt ''searchParams'') \<longrightarrow> length s < length s' \<and> s' ! length s = Params []) \<and>
      (if truthy (rd s tgt ''path'')
       then fields_at s' tgt ''pathname'' = Some (rd s tgt ''path'') \<and> fields_at s' tgt ''path'' = None
       else fields_at s' tgt ''pathname'' = fields_at s tgt ''pathname'' \<and>
            fields_at s' tgt ''path'' = fields_at s tgt ''path'') \<and>
      (\<forall>k. k \<notin> {''searchParams'', ''path'', ''pathname''} \<longrightarrow> fields_at s' tgt k = fields_at s tgt k))"
text \<open>
  A store for the examples. At address 0 the configuration, with a legacy target at 1 and
  a forward target at 7 whose query container is at 8; the request at 2 with its headers
  at 3; an empty object to be filled at 4; a \<^verbatim>\<open>Set-Cookie\<close> array at 5 and a rewrite map
  for cookie domains at 6.
\<close>

definition object :: "(string \<times> jsval) list \<Rightarrow> cell" where
  "object kvs = Object (map_of kvs)"

definition legacy_store :: store where
  "legacy_store =
     [object [(''target'', JObj 1), (''forward'', JObj 7), (''changeOrigin'', JBool True)],
      object [(''protocol'', JStr ''http:''), (''host'', JStr ''example.com''), (''path'', JStr ''/api'')],
      object [(''url'', JStr ''/''), (''method'', JStr ''GET''), (''headers'', JObj 3)],
      object [(''host'', JStr ''localhost:8080'')],
      object [],
      Elems [JStr ''sid=1; Domain=old.example; Secure''],
      object [(''old.example'', JStr ''new.example'')],
      object [(''protocol'', JStr ''https:''), (''host'', JStr ''log.example.com''), (''searchParams'', JObj 8)],
      Params [(''a'', ''1'')]]"

text \<open>A reference to a cell that the store \<open>s\<close> does not have: to an object made later.\<close>

definition new_reference :: "store \<Rightarrow> jsval \<Rightarrow> bool" where
  "new_reference s v = (case v of JObj a \<Rightarrow> length s \<le> a | _ \<Rightarrow> False)"

text \<open>
  Two notions for the proofs. \<open>kept n X s s'\<close>: of the first \<open>n\<close> cells, those outside \<open>X\<close> are
  in \<open>s'\<close> what they are in \<open>s\<close>. \<open>fresh_headers n s out\<close>: \<open>out\<close> is one of the first \<open>n\<close>
  cells and its \<^verbatim>\<open>headers\<close> refer to a cell beyond them.
\<close>

definition kept :: "nat \<Rightarrow> jsval set \<Rightarrow> store \<Rightarrow> store \<Rightarrow> bool" where
  "kept n X s s' = (n \<le> length s \<and> length s \<le> length s' \<and> (\<forall>a<n. JObj a \<notin> X \<longrightarrow> s' ! a = s ! a))"

definition fresh_headers :: "nat \<Rightarrow> store \<Rightarrow> jsval \<Rightarrow> bool" where
  "fresh_headers n s out =
     (n \<le> length s \<and> is_object s out \<and>
      (case out of JObj a \<Rightarrow> a < n | _ \<Rightarrow> False) \<and>
      (case rd s out ''headers'' of JObj h \<Rightarrow> n \<le> h | _ \<Rightarrow> False))"

section \<open>Facts about the building blocks\<close>

lemma get_upd: "get (m(k \<mapsto> v)) k' = (if k' = k then v else get m k')"
  by (simp add: get_def)

lemma get_Some: "m k = Some v \<Longrightarrow> get m k = v"
  by (simp add: get_def)


lemma prefix_contains: "prefix pat s \<Longrightarrow> contains pat s"
  by (cases s) auto

lemma resolve_attrs:
  "k \<noteq> ''path'' \<Longrightarrow> k \<noteq> ''pathname'' \<Longrightarrow> attrs (resolve t) k = attrs t k"
  by (simp add: resolve_def Let_def)

lemma resolve_get:
  "k \<noteq> ''path'' \<Longrightarrow> k \<noteq> ''pathname'' \<Longrightarrow> get (attrs (resolve t)) k = get (attrs t) k"
  by (simp add: get_def resolve_attrs)

lemma resolve_searchParams:
  "searchParams (resolve t) = Some (case searchParams t of None \<Rightarrow> [] | Some es \<Rightarrow> es)"
  by (auto simp: resolve_def Let_def split: option.splits)

lemma resolve_sslEnabled: "sslEnabled (resolve t) = sslEnabled t"
  by (simp add: sslEnabled_def resolve_get)

lemma copy_fields_apply:
  "copy_fields t m k = (if k \<in> set copied then Some (get (attrs t) k) else m k)"
  by (simp add: copy_fields_def copied_def)

lemma redirect_fields_other:
  "k \<notin> {''maxRedirects'', ''maxBodyLength'', ''agents'', ''beforeRedirect'', ''trackRedirects''} \<Longrightarrow>
   redirect_fields opts m k = m k"
  by (simp add: redirect_fields_def split: option.splits)

lemma base_fields_port:
  "base_fields opts req t m0 ''port'' =
     Some (js_or (get (attrs t) ''port'') (JNum (if sslEnabled t then 443 else 80)))"
  by (simp add: base_fields_def Let_def copy_fields_apply copied_def)

lemma base_fields_rejectUnauthorized:
  "base_fields opts req t m0 ''rejectUnauthorized'' =
     (if sslEnabled t then Some (if secure opts = JUndefined then JBool True else secure opts)
      else m0 ''rejectUnauthorized'')"
  by (simp add: base_fields_def Let_def copy_fields_apply copied_def)

lemma base_fields_agent:
  "base_fields opts req t m0 ''agent'' = Some (js_or (agent opts) (JBool False))"
  by (simp add: base_fields_def Let_def)

lemma base_fields_copied:
  "k \<in> set copied \<Longrightarrow>
   base_fields opts req t m0 k =
     Some (if k = ''ca'' \<and> truthy (ca opts) then ca opts else get (attrs t) k)"
  by (auto simp: base_fields_def Let_def copy_fields_apply copied_def)

lemma final_host:
  "get ((redirect_fields opts (base_fields opts req (resolve t) m0))(''path'' \<mapsto> x)) ''host'' =
     get (attrs t) ''host''"
  by (simp add: get_def redirect_fields_other base_fields_copied copied_def resolve_attrs)

lemma final_port:
  "get ((redirect_fields opts (base_fields opts req (resolve t) m0))(''path'' \<mapsto> x)) ''port'' =
     js_or (get (attrs t) ''port'') (JNum (if sslEnabled t then 443 else 80))"
  by (simp add: get_def redirect_fields_other base_fields_port resolve_attrs resolve_sslEnabled)

text \<open>What a call that returns has done, read off the definition once.\<close>

lemma returned_has_target:
  "returned (setupOutgoing pf out opts req w) \<Longrightarrow>
   \<exists>t0 parsed. pick w opts = Some t0 \<and>
      new_URL pf (case url req of None \<Rightarrow> ''undefined'' | Some u \<Rightarrow> u) = Some parsed"
  by (simp add: setupOutgoing_def Let_def split: option.splits)

lemma setupOutgoing_eq:
  assumes "pick w opts = Some t0"
    and "new_URL pf (case url req of None \<Rightarrow> ''undefined'' | Some u \<Rightarrow> u) = Some parsed"
  shows "setupOutgoing pf out opts req w =
     (let m0 = base_fields opts req (resolve t0) (out_fields out);
          hs = connection_header m0 (merged_headers opts req);
          reqUrl = merge_query parsed (case searchParams (resolve t0) of None \<Rightarrow> [] | Some es \<Rightarrow> es);
          m' = (redirect_fields opts m0)(''path'' \<mapsto> JStr (compose_path (targetPath opts (resolve t0))
                    (outgoingPath opts req reqUrl) (search reqUrl)))
      in if truthy (changeOrigin opts)
         then (case host_header pf (get (attrs t0) ''protocol'') (get (attrs t0) ''host'')
                      (js_or (get (attrs t0) ''port'') (JNum (if sslEnabled t0 then 443 else 80))) of
                 Inl e \<Rightarrow> Thrown e (put w (resolve t0) opts) \<lparr>out_fields = m', out_headers = hs\<rparr>
               | Inr h \<Rightarrow> Returned (put w (resolve t0) opts) \<lparr>out_fields = m', out_headers = hs(''host'' \<mapsto> h)\<rparr>)
         else Returned (put w (resolve t0) opts) \<lparr>out_fields = m', out_headers = hs\<rparr>)"
  using assms
  by (simp add: setupOutgoing_def Let_def final_host final_port resolve_get)

lemma setupOutgoing_returned:
  assumes "returned (setupOutgoing pf out opts req w)"
  obtains t0 parsed where
    "pick w opts = Some t0"
    "new_URL pf (case url req of None \<Rightarrow> ''undefined'' | Some u \<Rightarrow> u) = Some parsed"
    "out_fields (outgoing_after (setupOutgoing pf out opts req w)) =
       (redirect_fields opts (base_fields opts req (resolve t0) (out_fields out)))
         (''path'' \<mapsto> JStr (compose_path (targetPath opts (resolve t0))
              (outgoingPath opts req (merge_query parsed (case searchParams (resolve t0) of None \<Rightarrow> [] | Some es \<Rightarrow> es)))
              (search (merge_query parsed (case searchParams (resolve t0) of None \<Rightarrow> [] | Some es \<Rightarrow> es)))))"
    "\<forall>k. k \<noteq> ''host'' \<or> \<not> truthy (changeOrigin opts) \<longrightarrow>
       out_headers (outgoing_after (setupOutgoing pf out opts req w)) k =
       connection_header (base_fields opts req (resolve t0) (out_fields out)) (merged_headers opts req) k"
    "truthy (changeOrigin opts) \<longrightarrow>
       host_header pf (get (attrs t0) ''protocol'') (get (attrs t0) ''host'')
         (js_or (get (attrs t0) ''port'') (JNum (if sslEnabled t0 then 443 else 80))) =
       Inr (get (out_headers (outgoing_after (setupOutgoing pf out opts req w))) ''host'') \<and>
       ''host'' \<in> dom (out_headers (outgoing_after (setupOutgoing pf out opts req w)))"
proof -
  from returned_has_target [OF assms] obtain t0 parsed where
    t0: "pick w opts = Some t0"
    and pu: "new_URL pf (case url req of None \<Rightarrow> ''undefined'' | Some u \<Rightarrow> u) = Some parsed"
    by blast
  note eq = setupOutgoing_eq [OF t0 pu, of out]
  show thesis
  proof (rule that [OF t0 pu])
    show "out_fields (outgoing_after (setupOutgoing pf out opts req w)) =
       (redirect_fields opts (base_fields opts req (resolve t0) (out_fields out)))
         (''path'' \<mapsto> JStr (compose_path (targetPath opts (resolve t0))
              (outgoingPath opts req (merge_query parsed (case searchParams (resolve t0) of None \<Rightarrow> [] | Some es \<Rightarrow> es)))
              (search (merge_query parsed (case searchParams (resolve t0) of None \<Rightarrow> [] | Some es \<Rightarrow> es)))))"
      unfolding eq Let_def by (simp split: sum.splits)
    show "\<forall>k. k \<noteq> ''host'' \<or> \<not> truthy (changeOrigin opts) \<longrightarrow>
       out_headers (outgoing_after (setupOutgoing pf out opts req w)) k =
       connection_header (base_fields opts req (resolve t0) (out_fields out)) (merged_headers opts req) k"
      unfolding eq Let_def by (auto split: sum.splits)
    show "truthy (changeOrigin opts) \<longrightarrow>
       host_header pf (get (attrs t0) ''protocol'') (get (attrs t0) ''host'')
         (js_or (get (attrs t0) ''port'') (JNum (if sslEnabled t0 then 443 else 80))) =
       Inr (get (out_headers (outgoing_after (setupOutgoing pf out opts req w))) ''host'') \<and>
       ''host'' \<in> dom (out_headers (outgoing_after (setupOutgoing pf out opts req w)))"
    proof (cases "host_header pf (get (attrs t0) ''protocol'') (get (attrs t0) ''host'')
         (js_or (get (attrs t0) ''port'') (JNum (if sslEnabled t0 then 443 else 80)))")
      case (Inl e)
      then show ?thesis using assms unfolding eq Let_def by auto
    next
      case (Inr h)
      then show ?thesis unfolding eq Let_def by (simp add: get_def)
    qed
  qed
qed

section \<open>The claims\<close>

text \<open>
  C10. \<^verbatim>\<open>hasEncryptedConnection\<close> answers with a Boolean for every request or socket:
  true exactly when its \<^verbatim>\<open>connection\<close> or its \<^verbatim>\<open>socket\<close> is there and carries a truthy
  \<^verbatim>\<open>encrypted\<close> or \<^verbatim>\<open>pair\<close> flag, false otherwise.
\<close>

theorem hasEncryptedConnection_total:
  "hasEncryptedConnection req \<longleftrightarrow>
     (\<exists>c. (connection req = Some c \<or> socket req = Some c) \<and> (truthy (encrypted c) \<or> truthy (pair c)))"
  by (cases "connection req"; cases "socket req")
     (auto simp: hasEncryptedConnection_def js_or_def opt_chain_def)

theorem hasEncryptedConnection_plain_request:
  "\<not> hasEncryptedConnection (plain_request ''/'' []) \<and>
   hasEncryptedConnection ((plain_request ''/'' [])\<lparr>socket := Some \<lparr>encrypted = JBool True, pair = JUndefined\<rparr>\<rparr>)"
  using hasEncryptedConnection_total [of "plain_request ''/'' []"]
        hasEncryptedConnection_total [of "(plain_request ''/'' [])\<lparr>socket := Some \<lparr>encrypted = JBool True, pair = JUndefined\<rparr>\<rparr>"]
  by (simp add: plain_request_def)

lemmas example_defs = setupOutgoing_def no_options_def pick_def put_def node_def sample_URL_def
  plain_request_def empty_outgoing_def Let_def merge_query_def an_object_def resolve_def

lemma https_options_returned:
  "returned (setupOutgoing node empty_outgoing https_options (plain_request ''/'' []) UseTarget)"
  by (simp add: example_defs https_options_def)

text \<open>
  C1, as the code has it. For a target whose \<^verbatim>\<open>protocol\<close> is a string, a scheme that
  starts with \<^verbatim>\<open>https\<close> or \<^verbatim>\<open>wss\<close>, compared case-sensitively, makes the target
  encrypted: the port defaults to 443 and \<^verbatim>\<open>rejectUnauthorized\<close> is written (true unless
  \<^verbatim>\<open>secure\<close> is set). A scheme that neither starts with \<^verbatim>\<open>https\<close> nor has \<^verbatim>\<open>wss\<close> in
  it, such as \<^verbatim>\<open>HTTPS:\<close> or \<^verbatim>\<open>http:\<close>, makes it unencrypted: the port defaults to 80
  and \<^verbatim>\<open>rejectUnauthorized\<close> is not written.
\<close>

theorem setupOutgoing_ssl_classification:
  assumes "returned (setupOutgoing pf out opts req w)"
    and "pick w opts = Some t"
    and "get (attrs t) ''protocol'' = JStr p"
  shows "(prefix ''https'' p \<or> prefix ''wss'' p \<longrightarrow>
            out_fields (outgoing_after (setupOutgoing pf out opts req w)) ''port'' =
              Some (js_or (get (attrs t) ''port'') (JNum 443)) \<and>
            out_fields (outgoing_after (setupOutgoing pf out opts req w)) ''rejectUnauthorized'' =
              Some (if secure opts = JUndefined then JBool True else secure opts))
       \<and> (\<not> prefix ''https'' p \<and> \<not> contains ''wss'' p \<longrightarrow>
            out_fields (outgoing_after (setupOutgoing pf out opts req w)) ''port'' =
              Some (js_or (get (attrs t) ''port'') (JNum 80)) \<and>
            out_fields (outgoing_after (setupOutgoing pf out opts req w)) ''rejectUnauthorized'' =
              out_fields out ''rejectUnauthorized'')"
proof -
  from assms(1) obtain t0 parsed where
    t0: "pick w opts = Some t0"
    and fs: "out_fields (outgoing_after (setupOutgoing pf out opts req w)) =
       (redirect_fields opts (base_fields opts req (resolve t0) (out_fields out)))
         (''path'' \<mapsto> JStr (compose_path (targetPath opts (resolve t0))
              (outgoingPath opts req (merge_query parsed (case searchParams (resolve t0) of None \<Rightarrow> [] | Some es \<Rightarrow> es)))
              (search (merge_query parsed (case searchParams (resolve t0) of None \<Rightarrow> [] | Some es \<Rightarrow> es)))))"
    by (rule setupOutgoing_returned)
  from t0 assms(2) have [simp]: "t0 = t" by simp
  have ssl: "sslEnabled (resolve t) = (prefix ''https'' p \<or> contains ''wss'' p)"
    by (simp add: sslEnabled_def resolve_get assms(3) isSSL_test_def)
  have port: "out_fields (outgoing_after (setupOutgoing pf out opts req w)) ''port'' =
      Some (js_or (get (attrs t) ''port'') (JNum (if sslEnabled (resolve t) then 443 else 80)))"
    by (simp add: fs redirect_fields_other base_fields_port resolve_get)
  have rej: "out_fields (outgoing_after (setupOutgoing pf out opts req w)) ''rejectUnauthorized'' =
      (if sslEnabled (resolve t) then Some (if secure opts = JUndefined then JBool True else secure opts)
       else out_fields out ''rejectUnauthorized'')"
    by (simp add: fs redirect_fields_other base_fields_rejectUnauthorized)
  show ?thesis
    using prefix_contains [of "''wss''" p] by (auto simp: port rej ssl)
qed

theorem setupOutgoing_ssl_classification_witness:
  "returned (setupOutgoing node empty_outgoing https_options (plain_request ''/'' []) UseTarget) \<and>
   prefix ''https'' ''https:'' \<and>
   out_fields (outgoing_after (setupOutgoing node empty_outgoing https_options (plain_request ''/'' []) UseTarget)) ''port'' = Some (JNum 443) \<and>
   out_fields (outgoing_after (setupOutgoing node empty_outgoing https_options (plain_request ''/'' []) UseTarget)) ''rejectUnauthorized'' = Some (JBool True)"
  using setupOutgoing_ssl_classification [OF https_options_returned,
      of "an_object [(''protocol'', JStr ''https:''), (''host'', JStr ''api.example.com'')] (Some [])" "''https:''"]
    https_options_returned
  by (simp add: https_options_def no_options_def pick_def an_object_def get_def js_or_def)

text \<open>
  The scheme \<^verbatim>\<open>HTTPS:\<close> is not taken as encrypted: the port is 80 and
  \<^verbatim>\<open>rejectUnauthorized\<close> stays unset.
\<close>

theorem upper_case_scheme_not_encrypted:
  "returned (setupOutgoing node empty_outgoing upper_case_options (plain_request ''/'' []) UseTarget) \<and>
   out_fields (outgoing_after (setupOutgoing node empty_outgoing upper_case_options (plain_request ''/'' []) UseTarget)) ''port'' = Some (JNum 80) \<and>
   out_fields (outgoing_after (setupOutgoing node empty_outgoing upper_case_options (plain_request ''/'' []) UseTarget)) ''rejectUnauthorized'' = None"
  by (simp add: example_defs upper_case_options_def base_fields_def redirect_fields_def
        copy_fields_def copied_def sslEnabled_def isSSL_test_def get_def js_or_def)

lemma ca_options_returned:
  "returned (setupOutgoing node empty_outgoing ca_options (plain_request ''/'' []) UseTarget)"
  by (simp add: example_defs ca_options_def)

text \<open>
  C7, as the code has it. After \<^verbatim>\<open>setupOutgoing\<close> each of \<^verbatim>\<open>host\<close>, \<^verbatim>\<open>hostname\<close>,
  \<^verbatim>\<open>socketPath\<close>, \<^verbatim>\<open>pfx\<close>, \<^verbatim>\<open>key\<close>, \<^verbatim>\<open>passphrase\<close>, \<^verbatim>\<open>cert\<close>, \<^verbatim>\<open>ciphers\<close>,
  \<^verbatim>\<open>secureProtocol\<close> and \<^verbatim>\<open>servername\<close> of the descriptor holds what reading that
  property of the target gives: the target's value, or \<^verbatim>\<open>undefined\<close> (the key is written
  all the same) when the target does not define it. \<^verbatim>\<open>ca\<close> holds the target's value in
  the same way unless the configuration has a truthy \<^verbatim>\<open>ca\<close>, which then replaces it.
\<close>

theorem setupOutgoing_copies_target_fields:
  assumes "returned (setupOutgoing pf out opts req w)"
    and "pick w opts = Some t"
    and "k \<in> set copied"
  shows "out_fields (outgoing_after (setupOutgoing pf out opts req w)) k =
           Some (if k = ''ca'' \<and> truthy (ca opts) then ca opts else get (attrs t) k)"
proof -
  from assms(1) obtain t0 parsed where
    t0: "pick w opts = Some t0"
    and fs: "out_fields (outgoing_after (setupOutgoing pf out opts req w)) =
       (redirect_fields opts (base_fields opts req (resolve t0) (out_fields out)))
         (''path'' \<mapsto> JStr (compose_path (targetPath opts (resolve t0))
              (outgoingPath opts req (merge_query parsed (case searchParams (resolve t0) of None \<Rightarrow> [] | Some es \<Rightarrow> es)))
              (search (merge_query parsed (case searchParams (resolve t0) of None \<Rightarrow> [] | Some es \<Rightarrow> es)))))"
    by (rule setupOutgoing_returned)
  from t0 assms(2) have [simp]: "t0 = t" by simp
  from assms(3) have k: "k \<noteq> ''path''" "k \<noteq> ''pathname''"
    "k \<notin> {''maxRedirects'', ''maxBodyLength'', ''agents'', ''beforeRedirect'', ''trackRedirects''}"
    by (auto simp: copied_def)
  show ?thesis
    using k assms(3) by (simp add: fs redirect_fields_other base_fields_copied resolve_get)
qed

theorem setupOutgoing_copies_target_fields_witness:
  "returned (setupOutgoing node empty_outgoing ca_options (plain_request ''/'' []) UseTarget) \<and>
   ''host'' \<in> set copied \<and> ''pfx'' \<in> set copied \<and>
   out_fields (outgoing_after (setupOutgoing node empty_outgoing ca_options (plain_request ''/'' []) UseTarget)) ''host'' = Some (JStr ''api.example.com'') \<and>
   out_fields (outgoing_after (setupOutgoing node empty_outgoing ca_options (plain_request ''/'' []) UseTarget)) ''pfx'' = Some JUndefined"
  using setupOutgoing_copies_target_fields [OF ca_options_returned, of _ "''host''"]
        setupOutgoing_copies_target_fields [OF ca_options_returned, of _ "''pfx''"]
        ca_options_returned
  by (simp add: ca_options_def no_options_def pick_def an_object_def get_def copied_def)

text \<open>
  With a \<^verbatim>\<open>ca\<close> on both, the descriptor carries the configuration's, not the target's;
  and \<^verbatim>\<open>pfx\<close>, which the target does not define, is a key of the descriptor.
\<close>

theorem config_ca_replaces_target_ca:
  "returned (setupOutgoing node empty_outgoing ca_options (plain_request ''/'' []) UseTarget) \<and>
   target_attrs ca_options ''ca'' = Some (JStr ''TARGET-CA'') \<and>
   out_fields (outgoing_after (setupOutgoing node empty_outgoing ca_options (plain_request ''/'' []) UseTarget)) ''ca'' = Some (JStr ''CONFIG-CA'') \<and>
   target_attrs ca_options ''pfx'' = None \<and>
   out_fields (outgoing_after (setupOutgoing node empty_outgoing ca_options (plain_request ''/'' []) UseTarget)) ''pfx'' = Some JUndefined"
  by (simp add: example_defs ca_options_def base_fields_def redirect_fields_def
        copy_fields_def copied_def get_def target_attrs_def)

lemma config_after_setupOutgoing:
  "config_after (setupOutgoing pf out opts req w) =
     (case pick w opts of None \<Rightarrow> opts | Some t \<Rightarrow> put w (resolve t) opts)"
  by (simp add: setupOutgoing_def Let_def split: option.splits sum.splits)

lemma kept_refl: "n \<le> length s \<Longrightarrow> kept n X s s"
  by (simp add: kept_def)

lemma kept_trans: "kept n X s s1 \<Longrightarrow> kept n X s1 s2 \<Longrightarrow> kept n X s s2"
  by (simp add: kept_def)

lemma kept_mono: "kept n X s s' \<Longrightarrow> X \<subseteq> Y \<Longrightarrow> kept n Y s s'"
  by (auto simp: kept_def)

lemma length_update_fields [simp]: "length (update_fields s x f) = length s"
  by (simp add: update_fields_def split: jsval.splits)

lemma nth_update_fields:
  "update_fields s x f ! a = (if x = JObj a \<and> is_object s x then Object (f (fields_at s x)) else s ! a)"
  by (cases x) (auto simp: update_fields_def is_object_def nth_list_update)

lemma is_object_update_fields [simp]: "is_object (update_fields s x f) y = is_object s y"
  by (cases y) (auto simp: is_object_def nth_update_fields split: cell.splits)

lemma fields_at_update_fields:
  "fields_at (update_fields s x f) y = (if y = x \<and> is_object s x then f (fields_at s x) else fields_at s y)"
  by (cases y) (auto simp: fields_at_def nth_update_fields is_object_def split: cell.splits)

lemma entries_at_update_fields [simp]: "entries_at (update_fields s x f) y = entries_at s y"
  by (cases y) (auto simp: entries_at_def nth_update_fields is_object_def split: cell.splits)

lemma kept_update_fields:
  "n \<le> length s \<Longrightarrow> x \<in> X \<or> (\<forall>a. x = JObj a \<longrightarrow> n \<le> a) \<Longrightarrow> kept n X s (update_fields s x f)"
  by (auto simp: kept_def nth_update_fields)

lemma kept_alloc: "n \<le> length s \<Longrightarrow> kept n X s (snd (alloc s c))"
  by (simp add: kept_def alloc_def nth_append)

lemma is_object_alloc:
  "(\<forall>a. y = JObj a \<longrightarrow> a < length s) \<Longrightarrow> is_object (s @ [c]) y = is_object s y"
  by (cases y) (auto simp: is_object_def nth_append)

lemma fields_at_alloc:
  "(\<forall>a. y = JObj a \<longrightarrow> a < length s) \<Longrightarrow> fields_at (s @ [c]) y = fields_at s y"
  by (cases y) (auto simp: fields_at_def nth_append)

lemma is_object_bound: "is_object s y \<Longrightarrow> \<exists>a. y = JObj a \<and> a < length s"
  by (cases y) (auto simp: is_object_def)

lemma fields_at_not_object: "\<not> is_object s y \<Longrightarrow> fields_at s y = Map.empty"
  by (cases y) (auto simp: fields_at_def is_object_def split: cell.splits)
lemma length_wr [simp]: "length (wr s x k v) = length s"
  by (simp add: wr_def)

lemma is_object_wr [simp]: "is_object (wr s x k v) y = is_object s y"
  by (simp add: wr_def)

lemma entries_at_wr [simp]: "entries_at (wr s x k v) y = entries_at s y"
  by (simp add: wr_def)

lemma kept_wr:
  "n \<le> length s \<Longrightarrow> x \<in> X \<or> (\<forall>a. x = JObj a \<longrightarrow> n \<le> a) \<Longrightarrow> kept n X s (wr s x k v)"
  by (simp add: wr_def kept_update_fields)

lemma rd_wr:
  "rd (wr s x k v) y k' = (if y = x \<and> is_object s x \<and> k' = k then v else rd s y k')"
  by (simp add: rd_def wr_def fields_at_update_fields get_def)

lemma kept_fold_wr:
  "n \<le> length s \<Longrightarrow> x \<in> X \<Longrightarrow> kept n X s (fold (\<lambda>k s'. wr s' x k (g s' k)) ks s)"
proof (induction ks arbitrary: s)
  case Nil
  then show ?case by (simp add: kept_refl)
next
  case (Cons k ks)
  have "kept n X s (wr s x k (g s k))"
    using Cons.prems by (simp add: kept_wr)
  moreover have "kept n X (wr s x k (g s k)) (fold (\<lambda>k s'. wr s' x k (g s' k)) ks (wr s x k (g s k)))"
    using Cons.prems by (intro Cons.IH) simp_all
  ultimately show ?case by (simp add: kept_trans)
qed

lemma is_object_fold_wr [simp]:
  "is_object (fold (\<lambda>k s'. wr s' x k (g s' k)) ks s) y = is_object s y"
  by (induction ks arbitrary: s) simp_all

lemma fresh_headers_iff:
  "fresh_headers n s out =
     (n \<le> length s \<and> is_object s out \<and> (\<exists>a. out = JObj a \<and> a < n) \<and>
      (\<exists>h. rd s out ''headers'' = JObj h \<and> n \<le> h))"
  by (auto simp: fresh_headers_def split: jsval.splits)

lemma fresh_headers_wr_out:
  "fresh_headers n s out \<Longrightarrow> k \<noteq> ''headers'' \<Longrightarrow> fresh_headers n (wr s out k v) out"
  by (auto simp: fresh_headers_iff rd_wr)

lemma fresh_headers_wr_headers:
  "fresh_headers n s out \<Longrightarrow> fresh_headers n (wr s (rd s out ''headers'') k v) out"
  by (auto simp: fresh_headers_iff rd_wr)

lemma fresh_headers_kept_wr_headers:
  "fresh_headers n s out \<Longrightarrow> kept n X s (wr s (rd s out ''headers'') k v)"
  by (auto simp: fresh_headers_iff intro!: kept_wr)

lemma fresh_headers_fold:
  "fresh_headers n s out \<Longrightarrow> ''headers'' \<notin> set ks \<Longrightarrow>
   fresh_headers n (fold (\<lambda>k s'. wr s' out k (g s' k)) ks s) out"
proof (induction ks arbitrary: s)
  case Nil
  then show ?case by simp
next
  case (Cons k ks)
  have k: "k \<noteq> ''headers''" using Cons.prems(2) by auto
  have "fresh_headers n (wr s out k (g s k)) out"
    using Cons.prems(1) k by (rule fresh_headers_wr_out)
  moreover have "''headers'' \<notin> set ks" using Cons.prems(2) by simp
  ultimately have "fresh_headers n (fold (\<lambda>k s'. wr s' out k (g s' k)) ks (wr s out k (g s k))) out"
    by (rule Cons.IH)
  then show ?case by simp
qed

lemma kept_normalise_target:
  "n \<le> length s \<Longrightarrow> kept n {tgt} s (normalise_target s tgt)"
  by (auto simp: normalise_target_def Let_def alloc_def unset_def wr_def kept_def
        nth_update_fields nth_append)

lemma is_object_normalise_target:
  "(\<forall>a. y = JObj a \<longrightarrow> a < length s) \<Longrightarrow> is_object (normalise_target s tgt) y = is_object s y"
  by (simp add: normalise_target_def Let_def alloc_def unset_def is_object_alloc)

lemma kept_write_target_fields:
  "n \<le> length s \<Longrightarrow> kept n {out} s (write_target_fields s out tgt ssl)"
  unfolding write_target_fields_def
  by (rule kept_trans [OF kept_wr kept_fold_wr]) simp_all

lemma is_object_write_target_fields [simp]:
  "is_object (write_target_fields s out tgt ssl) y = is_object s y"
  by (simp add: write_target_fields_def)

lemma length_write_target_fields:
  "length s \<le> length (write_target_fields s out tgt ssl)"
  using kept_write_target_fields [of 0 s out tgt ssl] by (simp add: kept_def)

lemma write_headers_fresh:
  assumes "n \<le> length s" "is_object s out" "out = JObj a" "a < n"
  shows "kept n {out} s (write_headers s out opts req) \<and> fresh_headers n (write_headers s out opts req) out"
proof -
  define s1 where "s1 = wr s out ''method'' (js_or (rd s opts ''method'') (rd s req ''method''))"
  define s2 where "s2 = wr (s1 @ [Object (fields_at s1 (rd s1 req ''headers''))]) out ''headers'' (JObj (length s1))"
  have l1: "length s1 = length s" by (simp add: s1_def)
  have o1: "is_object s1 out" using assms by (simp add: s1_def)
  have o1': "is_object (s1 @ [Object (fields_at s1 (rd s1 req ''headers''))]) out"
    using assms l1 o1 by (simp add: is_object_alloc)
  have k1: "kept n {out} s s1" using assms by (simp add: s1_def kept_wr)
  have k2: "kept n {out} s1 s2"
    unfolding s2_def using assms l1
    by (intro kept_trans [OF kept_alloc [unfolded alloc_def snd_conv] kept_wr]) simp_all
  have h2: "rd s2 out ''headers'' = JObj (length s1)"
    using o1' by (simp add: s2_def rd_wr)
  have f2: "fresh_headers n s2 out"
    using assms l1 o1' h2 by (simp add: fresh_headers_iff) (simp add: s2_def)
  have k3: "kept n {out} s2 (assign s2 (rd s2 out ''headers'') v)" for v
    using assms l1 h2 by (simp add: assign_def s2_def kept_update_fields)
  have f3: "fresh_headers n (assign s2 (rd s2 out ''headers'') v) out" for v
    using f2 assms l1 h2
    by (auto simp: fresh_headers_iff assign_def rd_def fields_at_update_fields)
  have eq: "write_headers s out opts req =
              (if truthy (rd s2 opts ''headers'') then assign s2 (rd s2 out ''headers'') (rd s2 opts ''headers'') else s2)"
    by (simp add: write_headers_def Let_def alloc_def s1_def s2_def)
  show ?thesis
    unfolding eq using k1 k2 k3 f2 f3 by (auto intro: kept_trans)
qed

lemma write_options_fields_fresh:
  assumes "fresh_headers n s out"
  shows "kept n {out} s (write_options_fields s out opts ssl) \<and> fresh_headers n (write_options_fields s out opts ssl) out"
proof -
  have step: "kept n {out} s0 (wr s0 out k v) \<and> fresh_headers n (wr s0 out k v) out"
    if "fresh_headers n s0 out" "k \<noteq> ''headers''" for s0 k v
    using that by (simp add: fresh_headers_wr_out kept_wr) (simp add: fresh_headers_iff kept_wr)
  define s1 where "s1 = (if truthy (rd s opts ''auth'') then wr s out ''auth'' (rd s opts ''auth'') else s)"
  define s2 where "s2 = (if truthy (rd s1 opts ''ca'') then wr s1 out ''ca'' (rd s1 opts ''ca'') else s1)"
  define s3 where "s3 = (if ssl
                then wr s2 out ''rejectUnauthorized''
                       (if rd s2 opts ''secure'' = JUndefined then JBool True else rd s2 opts ''secure'')
                else s2)"
  define s4 where "s4 = wr s3 out ''agent'' (js_or (rd s3 opts ''agent'') (JBool False))"
  define s5 where "s5 = wr s4 out ''localAddress'' (rd s4 opts ''localAddress'')"
  have r: "kept n {out} s0 s0" if "fresh_headers n s0 out" for s0
    using that by (simp add: fresh_headers_iff kept_refl)
  have 1: "kept n {out} s s1 \<and> fresh_headers n s1 out"
    using assms step [OF assms, of "''auth''"] r [OF assms] by (simp add: s1_def)
  have 2: "kept n {out} s1 s2 \<and> fresh_headers n s2 out"
    using 1 step [of s1 "''ca''"] r [of s1] by (simp add: s2_def)
  have 3: "kept n {out} s2 s3 \<and> fresh_headers n s3 out"
    using 2 step [of s2 "''rejectUnauthorized''"] r [of s2] by (simp add: s3_def)
  have 4: "kept n {out} s3 s4 \<and> fresh_headers n s4 out"
    using 3 step [of s3 "''agent''"] by (simp add: s4_def)
  have 5: "kept n {out} s4 s5 \<and> fresh_headers n s5 out"
    using 4 step [of s4 "''localAddress''"] by (simp add: s5_def)
  have eq: "write_options_fields s out opts ssl = s5"
    by (simp add: write_options_fields_def Let_def s1_def s2_def s3_def s4_def s5_def)
  show ?thesis
    unfolding eq using 1 2 3 4 5 by (blast intro: kept_trans)
qed

lemma close_connection_fresh:
  assumes "fresh_headers n s out"
  shows "kept n {out} s (close_connection s out) \<and> fresh_headers n (close_connection s out) out"
proof -
  from assms obtain h where h: "rd s out ''headers'' = JObj h" "n \<le> h"
    by (auto simp: fresh_headers_iff)
  define s1 where "s1 = wr s out ''headers'' (rd s out ''headers'')"
  have k1: "kept n {out} s s1" using assms by (simp add: s1_def fresh_headers_iff kept_wr)
  have f1: "fresh_headers n s1 out"
    using assms h by (auto simp: fresh_headers_iff s1_def rd_wr)
  have k2: "kept n {out} s1 (wr s1 (rd s1 out ''headers'') k v)" for k v
    using f1 by (rule fresh_headers_kept_wr_headers)
  have f2: "fresh_headers n (wr s1 (rd s1 out ''headers'') k v) out" for k v
    using f1 by (rule fresh_headers_wr_headers)
  have r: "kept n {out} s s" using assms by (simp add: fresh_headers_iff kept_refl)
  have t: "truthy (rd s out ''headers'')" using h by simp
  show ?thesis
    unfolding close_connection_def Let_def
    using k1 f1 k2 f2 r assms t
    by (auto simp: s1_def [symmetric] intro: kept_trans)
qed

lemma write_redirects_fresh:
  assumes "fresh_headers n s out"
  shows "kept n {out} s (write_redirects s out opts) \<and> fresh_headers n (write_redirects s out opts) out"
proof (cases "is_reference (rd s opts ''followRedirects'')")
  case False
  then show ?thesis using assms by (simp add: write_redirects_def kept_refl fresh_headers_iff)
next
  case True
  define ks where "ks = [''maxRedirects'', ''maxBodyLength'', ''agents'', ''beforeRedirect'', ''trackRedirects'']"
  have eq: "write_redirects s out opts = fold (\<lambda>k s'. wr s' out k (rd s' (rd s' opts ''followRedirects'') k)) ks s"
    using True by (simp only: write_redirects_def ks_def if_True)
  have nk: "''headers'' \<notin> set ks" by (simp add: ks_def)
  have n: "n \<le> length s" using assms by (simp add: fresh_headers_iff)
  show ?thesis
    unfolding eq
    using kept_fold_wr [OF n, of out "{out}" "\<lambda>s' k. rd s' (rd s' opts ''followRedirects'') k" ks]
          fresh_headers_fold [OF assms nk, of "\<lambda>s' k. rd s' (rd s' opts ''followRedirects'') k"]
    by simp
qed

lemma write_path_fresh:
  assumes "fresh_headers n s out"
  shows "kept n {out} s (fst (write_path pf s out opts req tgt)) \<and>
         fresh_headers n (fst (write_path pf s out opts req tgt)) out"
  using assms
  by (auto simp: write_path_def Let_def kept_refl kept_wr fresh_headers_wr_out fresh_headers_iff [of n s]
           split: option.splits)

lemma write_host_kept:
  assumes "fresh_headers n s out"
  shows "kept n {out} s (fst (write_host pf s out opts tgt))"
  using assms
  by (auto simp: write_host_def kept_refl fresh_headers_kept_wr_headers fresh_headers_iff [of n s]
           split: sum.splits)
lemma write_host_fresh:
  assumes "fresh_headers n s out"
  shows "fresh_headers n (fst (write_host pf s out opts tgt)) out"
  using assms
  by (auto simp: write_host_def fresh_headers_wr_headers split: sum.splits)

lemma setupOutgoing_st_after_normalise:
  assumes out: "is_object s out"
    and nn: "\<not> nullish (rd s opts (selected w))"
  shows "kept (length (if is_reference (rd s opts (selected w)) then normalise_target s (rd s opts (selected w)) else s)) {out}
           (if is_reference (rd s opts (selected w)) then normalise_target s (rd s opts (selected w)) else s)
           (fst (setupOutgoing_st pf s out opts req w)) \<and>
         fresh_headers (length (if is_reference (rd s opts (selected w)) then normalise_target s (rd s opts (selected w)) else s))
           (fst (setupOutgoing_st pf s out opts req w)) out"
proof -
  define tgt where "tgt = rd s opts (selected w)"
  define s1 where "s1 = (if is_reference tgt then normalise_target s tgt else s)"
  define ssl where "ssl = isSSL_test (ToString (rd s1 tgt ''protocol''))"
  define s2 where "s2 = write_target_fields s1 out tgt ssl"
  define s3 where "s3 = write_headers s2 out opts req"
  define s4 where "s4 = write_options_fields s3 out opts ssl"
  define s5 where "s5 = close_connection s4 out"
  define s6 where "s6 = write_redirects s5 out opts"
  define s7 where "s7 = fst (write_path pf s6 out opts req tgt)"
  define n where "n = length s1"
  from out obtain a where a: "out = JObj a" "a < length s"
    using is_object_bound by blast
  have l1: "length s \<le> length s1"
    using kept_normalise_target [of 0 s tgt] by (simp add: s1_def kept_def)
  have o1: "is_object s1 out"
    using out a by (simp add: s1_def is_object_normalise_target)
  have k2: "kept n {out} s1 s2"
    by (simp add: s2_def n_def kept_write_target_fields)
  have o2: "is_object s2 out" using o1 by (simp add: s2_def)
  have n2: "n \<le> length s2" using k2 by (simp add: kept_def)
  have an: "a < n" using a l1 by (simp add: n_def)
  have 3: "kept n {out} s2 s3 \<and> fresh_headers n s3 out"
    unfolding s3_def using n2 o2 a(1) an by (rule write_headers_fresh)
  have 4: "kept n {out} s3 s4 \<and> fresh_headers n s4 out"
    unfolding s4_def using 3 by (simp add: write_options_fields_fresh)
  have 5: "kept n {out} s4 s5 \<and> fresh_headers n s5 out"
    unfolding s5_def using 4 by (simp add: close_connection_fresh)
  have 6: "kept n {out} s5 s6 \<and> fresh_headers n s6 out"
    unfolding s6_def using 5 by (simp add: write_redirects_fresh)
  have 7: "kept n {out} s6 s7 \<and> fresh_headers n s7 out"
    unfolding s7_def using 6 by (simp add: write_path_fresh)
  have 8: "kept n {out} s7 (fst (write_host pf s7 out opts tgt))"
    using 7 by (simp add: write_host_kept)
  have k7: "kept n {out} s1 s7"
    using k2 3 4 5 6 7 by (blast intro: kept_trans)
  have k8: "kept n {out} s1 (fst (write_host pf s7 out opts tgt))"
    using k7 8 by (rule kept_trans)
  have eq: "fst (setupOutgoing_st pf s out opts req w) = s7 \<or>
            fst (setupOutgoing_st pf s out opts req w) = fst (write_host pf s7 out opts tgt)"
    using nn
    by (simp add: setupOutgoing_st_def Let_def tgt_def [symmetric] s1_def [symmetric]
          ssl_def [symmetric] s2_def [symmetric] s3_def [symmetric] s4_def [symmetric]
          s5_def [symmetric] s6_def [symmetric] s7_def split: prod.splits completion.splits)
  have f8: "fresh_headers n (fst (write_host pf s7 out opts tgt)) out"
    using 7 by (simp add: write_host_fresh)
  show ?thesis
    using eq k7 k8 7 f8 by (auto simp: n_def s1_def tgt_def)
qed

lemma setupOutgoing_st_new_headers:
  assumes out: "is_object s out"
    and nn: "\<not> nullish (rd s opts (selected w))"
  shows "new_reference s (rd (fst (setupOutgoing_st pf s out opts req w)) out ''headers'')"
proof -
  define s1 where "s1 = (if is_reference (rd s opts (selected w)) then normalise_target s (rd s opts (selected w)) else s)"
  have "fresh_headers (length s1) (fst (setupOutgoing_st pf s out opts req w)) out"
    using setupOutgoing_st_after_normalise [OF out nn, of pf req] unfolding s1_def by simp
  moreover have "length s \<le> length s1"
    using kept_normalise_target [of 0 s "rd s opts (selected w)"] by (simp add: s1_def kept_def)
  ultimately show ?thesis
    by (auto simp: fresh_headers_iff new_reference_def)
qed

lemma setupOutgoing_st_nullish:
  "nullish (rd s opts (selected w)) \<Longrightarrow> setupOutgoing_st pf s out opts req w = (s, Raised TypeError)"
  by (simp add: setupOutgoing_st_def)

lemma write_path_result: "snd (write_path pf s out opts req tgt) \<noteq> Exhausted"
  by (simp add: write_path_def Let_def split: option.splits)

lemma write_host_result: "snd (write_host pf s out opts tgt) \<noteq> Exhausted"
  by (simp add: write_host_def split: sum.splits)

lemma setupOutgoing_st_result:
  "case snd (setupOutgoing_st pf s out opts req w) of Done r \<Rightarrow> r = out | Raised e \<Rightarrow> True | Exhausted \<Rightarrow> False"
proof (cases "nullish (rd s opts (selected w))")
  case True
  then show ?thesis by (simp add: setupOutgoing_st_nullish)
next
  case False
  define tgt where "tgt = rd s opts (selected w)"
  define s1 where "s1 = (if is_reference tgt then normalise_target s tgt else s)"
  define ssl where "ssl = isSSL_test (ToString (rd s1 tgt ''protocol''))"
  define s6 where "s6 = write_redirects (close_connection (write_options_fields
                     (write_headers (write_target_fields s1 out tgt ssl) out opts req) out opts ssl) out) out opts"
  obtain s7 r7 where 7: "write_path pf s6 out opts req tgt = (s7, r7)"
    by (cases "write_path pf s6 out opts req tgt")
  obtain s8 r8 where 8: "write_host pf s7 out opts tgt = (s8, r8)"
    by (cases "write_host pf s7 out opts tgt")
  have e7: "r7 \<noteq> Exhausted" using write_path_result [of pf s6 out opts req tgt] 7 by simp
  have e8: "r8 \<noteq> Exhausted" using write_host_result [of pf s7 out opts tgt] 8 by simp
  have "snd (setupOutgoing_st pf s out opts req w) =
          (case r7 of Done u \<Rightarrow> (case r8 of Done u' \<Rightarrow> Done out | Raised e \<Rightarrow> Raised e | Exhausted \<Rightarrow> Exhausted)
           | Raised e \<Rightarrow> Raised e | Exhausted \<Rightarrow> Exhausted)"
    using False
    by (simp add: setupOutgoing_st_def Let_def tgt_def [symmetric] s1_def [symmetric]
          ssl_def [symmetric] s6_def [symmetric] 7 8 split: completion.splits)
  then show ?thesis
    using e7 e8 by (simp split: completion.splits)
qed

lemma only_writes_kept: "only_writes X s s' = kept (length s) X s s'"
  by (simp add: only_writes_def kept_def)

lemma kept_shorter: "kept n X s s' \<Longrightarrow> m \<le> n \<Longrightarrow> kept m X s s'"
  by (simp add: kept_def)

lemma setupOutgoing_st_only_writes:
  assumes out: "is_object s out"
  shows "only_writes {out, rd s opts (selected w)} s (fst (setupOutgoing_st pf s out opts req w))"
proof (cases "nullish (rd s opts (selected w))")
  case True
  then show ?thesis by (simp add: setupOutgoing_st_nullish only_writes_def)
next
  case False
  define tgt where "tgt = rd s opts (selected w)"
  define s1 where "s1 = (if is_reference tgt then normalise_target s tgt else s)"
  have k1: "kept (length s) {out, tgt} s s1"
    using kept_normalise_target [of "length s" s tgt]
    by (auto simp: s1_def kept_refl intro: kept_mono)
  have "kept (length s1) {out} s1 (fst (setupOutgoing_st pf s out opts req w))"
    using setupOutgoing_st_after_normalise [OF out False, of pf req, THEN conjunct1]
    unfolding s1_def tgt_def .
  moreover have "length s \<le> length s1" using k1 by (simp add: kept_def)
  ultimately have "kept (length s) {out, tgt} s1 (fst (setupOutgoing_st pf s out opts req w))"
    by (auto intro: kept_shorter kept_mono)
  with k1 show ?thesis
    unfolding only_writes_kept tgt_def [symmetric] by (rule kept_trans)
qed

lemma setupOutgoing_st_target_kept:
  assumes out: "is_object s out"
    and sp: "truthy (rd s (rd s opts (selected w)) ''searchParams'')"
    and pa: "\<not> truthy (rd s (rd s opts (selected w)) ''path'')"
  shows "only_writes {out} s (fst (setupOutgoing_st pf s out opts req w))"
proof -
  define tgt where "tgt = rd s opts (selected w)"
  have sp': "truthy (rd s tgt ''searchParams'')" and pa': "\<not> truthy (rd s tgt ''path'')"
    using sp pa by (simp_all add: tgt_def)
  have nn: "\<not> nullish tgt"
    using sp' by (cases tgt) (auto simp: nullish_def rd_def fields_at_def get_def)
  have "normalise_target s tgt = s"
    using sp' pa' by (simp add: normalise_target_def)
  then have s1: "(if is_reference tgt then normalise_target s tgt else s) = s" by simp
  show ?thesis
    using setupOutgoing_st_after_normalise [OF out nn [unfolded tgt_def], of pf req, THEN conjunct1]
    unfolding tgt_def [symmetric] s1 only_writes_kept .
qed

lemma normalise_target_effect:
  assumes "is_object s tgt"
  shows "normalised_in_place s tgt (normalise_target s tgt)"
proof -
  from assms obtain t where t: "tgt = JObj t" "t < length s"
    using is_object_bound by blast
  have o: "is_object (s @ [Params []]) tgt"
    using assms t by (simp add: is_object_alloc)
  have f: "fields_at (s @ [Params []]) tgt = fields_at s tgt"
    using t by (simp add: fields_at_alloc)
  have tl: "t \<noteq> length s" using t by simp
  show ?thesis
    using assms o f tl
    by (simp add: normalised_in_place_def normalise_target_def Let_def alloc_def rd_def wr_def
          unset_def fields_at_update_fields get_def nth_update_fields t)
qed

lemma normalised_in_place_kept:
  assumes np: "normalised_in_place s tgt s1"
    and k: "kept (length s1) {out} s1 s'"
    and ne: "tgt \<noteq> out"
    and ot: "is_object s tgt"
    and oo: "is_object s out"
    and le: "length s \<le> length s1"
  shows "normalised_in_place s tgt s'"
proof -
  from ot obtain t where t: "tgt = JObj t" "t < length s"
    using is_object_bound by blast
  from oo obtain a where a: "out = JObj a" "a < length s"
    using is_object_bound by blast
  have "s' ! t = s1 ! t" using k t le ne by (simp add: kept_def)
  moreover have "t < length s1" "t < length s'" using k t le by (simp_all add: kept_def)
  ultimately have f: "fields_at s' tgt = fields_at s1 tgt"
    by (simp add: fields_at_def t)
  have p: "length s < length s1 \<Longrightarrow> s' ! length s = s1 ! length s \<and> length s < length s'"
    using k a by (auto simp: kept_def)
  show ?thesis
    using np p by (simp add: normalised_in_place_def rd_def f)
qed

lemma setupOutgoing_st_normalises:
  assumes out: "is_object s out"
    and ot: "is_object s (rd s opts (selected w))"
    and ne: "rd s opts (selected w) \<noteq> out"
  shows "normalised_in_place s (rd s opts (selected w)) (fst (setupOutgoing_st pf s out opts req w))"
proof -
  define tgt where "tgt = rd s opts (selected w)"
  have r: "is_reference tgt" and nn: "\<not> nullish tgt"
    using ot by (auto simp: tgt_def [symmetric] is_object_def is_reference_def nullish_def split: jsval.splits)
  have k: "kept (length (normalise_target s tgt)) {out} (normalise_target s tgt) (fst (setupOutgoing_st pf s out opts req w))"
    using setupOutgoing_st_after_normalise [OF out nn [unfolded tgt_def], of pf req, THEN conjunct1] r
    by (simp add: tgt_def)
  have le: "length s \<le> length (normalise_target s tgt)"
    using kept_normalise_target [of 0 s tgt] by (simp add: kept_def)
  show ?thesis
    unfolding tgt_def [symmetric]
    using normalise_target_effect [OF ot [unfolded tgt_def [symmetric]]] k ne [unfolded tgt_def [symmetric]]
          ot [unfolded tgt_def [symmetric]] out le
    by (rule normalised_in_place_kept)
qed
lemma kept_map_from:
  assumes f: "\<And>s x. n \<le> length s \<Longrightarrow> kept n X s (fst (f s x))"
  shows "n \<le> length s \<Longrightarrow> kept n X s (fst (map_from f xs k i s))"
proof (induction k arbitrary: s i)
  case 0
  then show ?case by (simp add: kept_refl)
next
  case (Suc k)
  define x where "x = (case elems_at s xs of
                         Some es \<Rightarrow> if i < length es then es ! i else JUndefined
                       | None \<Rightarrow> JUndefined)"
  obtain s1 r where r: "f s x = (s1, r)" by (cases "f s x")
  have k1: "kept n X s s1" using f [OF Suc.prems, of x] r by simp
  then have n1: "n \<le> length s1" by (simp add: kept_def)
  have k2: "kept n X s1 (fst (map_from f xs k (Suc i) s1))" using n1 by (rule Suc.IH)
  have "kept n X s (fst (map_from f xs k (Suc i) s1))" using k1 k2 by (rule kept_trans)
  with k1 show ?case
    by (auto simp: x_def [symmetric] r split: completion.splits prod.splits)
qed

lemma kept_on_header:
  "n \<le> length s \<Longrightarrow> kept n X s (fst (on_header d f s header))"
proof (induction d arbitrary: s header)
  case 0
  then show ?case by (simp add: kept_refl)
next
  case (Suc d)
  show ?case
  proof (cases "elems_at s header")
    case None
    then show ?thesis using Suc.prems by (simp add: kept_refl split: jsval.splits)
  next
    case (Some es)
    have m: "kept n X s (fst (map_from (\<lambda>s' headerElement. on_header d f s' headerElement) header (length es) 0 s))"
      using Suc.prems by (intro kept_map_from Suc.IH)
    obtain s1 r where r: "map_from (\<lambda>s' headerElement. on_header d f s' headerElement) header (length es) 0 s = (s1, r)"
      by (cases "map_from (\<lambda>s' headerElement. on_header d f s' headerElement) header (length es) 0 s")
    have k1: "kept n X s s1" using m r by simp
    then have "kept n X s (s1 @ [c])" for c
      by (simp add: kept_def nth_append)
    with k1 show ?thesis
      by (simp add: Some r alloc_def split: completion.splits)
  qed
qed

lemma on_header_new_array:
  assumes "elems_at s header = Some es"
  shows "case snd (on_header d f s header) of Done v \<Rightarrow> new_reference s v | _ \<Rightarrow> True"
proof (cases d)
  case 0
  then show ?thesis by simp
next
  case (Suc d')
  obtain s1 r where r: "map_from (\<lambda>s' headerElement. on_header d' f s' headerElement) header (length es) 0 s = (s1, r)"
    by (cases "map_from (\<lambda>s' headerElement. on_header d' f s' headerElement) header (length es) 0 s")
  have "kept 0 {} s (fst (map_from (\<lambda>s' headerElement. on_header d' f s' headerElement) header (length es) 0 s))"
    by (intro kept_map_from kept_on_header) simp_all
  then have "length s \<le> length s1" by (simp add: r kept_def)
  then show ?thesis
    by (simp add: Suc assms r alloc_def new_reference_def split: completion.splits)
qed

lemma kept_or_empty_array: "n \<le> length s \<Longrightarrow> kept n X s (fst (or_empty_array s x))"
  by (simp add: or_empty_array_def alloc_def kept_def nth_append)

lemma kept_as_array: "n \<le> length s \<Longrightarrow> kept n X s (fst (as_array s x))"
  by (simp add: as_array_def alloc_def kept_def nth_append)

lemma kept_mergeSetCookie_st:
  "n \<le> length s \<Longrightarrow> kept n X s (fst (mergeSetCookie_st s setCookie upstreamSetCookie))"
proof -
  assume n: "n \<le> length s"
  obtain s1 e where 1: "or_empty_array s setCookie = (s1, e)" by (cases "or_empty_array s setCookie")
  obtain s2 u where 2: "or_empty_array s1 upstreamSetCookie = (s2, u)" by (cases "or_empty_array s1 upstreamSetCookie")
  obtain s3 e' where 3: "as_array s2 e = (s3, e')" by (cases "as_array s2 e")
  obtain s4 u' where 4: "as_array s3 u = (s4, u')" by (cases "as_array s3 u")
  have k1: "kept n X s s1" using kept_or_empty_array [OF n, of X setCookie] 1 by simp
  then have "n \<le> length s1" by (simp add: kept_def)
  then have k2: "kept n X s1 s2" using kept_or_empty_array [of n s1 X upstreamSetCookie] 2 by simp
  then have "n \<le> length s2" by (simp add: kept_def)
  then have k3: "kept n X s2 s3" using kept_as_array [of n s2 X e] 3 by simp
  then have "n \<le> length s3" by (simp add: kept_def)
  then have k4: "kept n X s3 s4" using kept_as_array [of n s3 X u] 4 by simp
  have k5: "kept n X s4 (s4 @ [c])" for c using k4 by (simp add: kept_def nth_append)
  have "kept n X s (s4 @ [c])" for c
    using k1 k2 k3 k4 k5 [of c] by (blast intro: kept_trans)
  then show ?thesis
    by (simp add: mergeSetCookie_st_def 1 2 3 4 alloc_def)
qed

lemma mergeSetCookie_st_new_array:
  "new_reference s (snd (mergeSetCookie_st s setCookie upstreamSetCookie))"
proof -
  obtain s1 e where 1: "or_empty_array s setCookie = (s1, e)" by (cases "or_empty_array s setCookie")
  obtain s2 u where 2: "or_empty_array s1 upstreamSetCookie = (s2, u)" by (cases "or_empty_array s1 upstreamSetCookie")
  obtain s3 e' where 3: "as_array s2 e = (s3, e')" by (cases "as_array s2 e")
  obtain s4 u' where 4: "as_array s3 u = (s4, u')" by (cases "as_array s3 u")
  have "length s \<le> length s1" using kept_or_empty_array [of 0 s "{}" setCookie] 1 by (simp add: kept_def)
  moreover have "length s1 \<le> length s2" using kept_or_empty_array [of 0 s1 "{}" upstreamSetCookie] 2 by (simp add: kept_def)
  moreover have "length s2 \<le> length s3" using kept_as_array [of 0 s2 "{}" e] 3 by (simp add: kept_def)
  moreover have "length s3 \<le> length s4" using kept_as_array [of 0 s3 "{}" u] 4 by (simp add: kept_def)
  ultimately show ?thesis
    by (simp add: mergeSetCookie_st_def 1 2 3 4 alloc_def new_reference_def)
qed

lemma fst_getPort_st: "fst (getPort_st s req) = s"
  by (simp add: getPort_st_def hasEncryptedConnection_st_def Let_def split: jsval.splits option.splits)

text \<open>
  C3, as the code has it. Of the objects that exist before a call, \<^verbatim>\<open>setupOutgoing\<close>
  writes the object it is given to fill and the target it selects from the configuration,
  and no other: the configuration object, the request and the request's headers are after
  the call what they were before, whether it returns or throws (the \<^verbatim>\<open>headers\<close> of the
  filled object are a new object). The selected target is normalised in place: a
  \<^verbatim>\<open>searchParams\<close> that is not truthy becomes a new, empty container, a truthy legacy
  \<^verbatim>\<open>path\<close> is moved to \<^verbatim>\<open>pathname\<close> and deleted, and its other properties stay. A
  target that has its container and no truthy \<^verbatim>\<open>path\<close> is not written either.
  \<^verbatim>\<open>rewriteCookieProperty\<close>, \<^verbatim>\<open>removeCookieProperty\<close> and \<^verbatim>\<open>mergeSetCookie\<close> write no
  object that exists before the call, the arrays they return being new ones, and
  \<^verbatim>\<open>getPort\<close> and \<^verbatim>\<open>hasEncryptedConnection\<close> leave the store as it is.
\<close>

theorem only_target_and_outgoing_written:
  "(is_object s out \<longrightarrow>
      only_writes {out, rd s opts (selected w)} s (fst (setupOutgoing_st pf s out opts req w)) \<and>
      (\<not> nullish (rd s opts (selected w)) \<longrightarrow>
         new_reference s (rd (fst (setupOutgoing_st pf s out opts req w)) out ''headers'')) \<and>
      (is_object s (rd s opts (selected w)) \<and> rd s opts (selected w) \<noteq> out \<longrightarrow>
         normalised_in_place s (rd s opts (selected w)) (fst (setupOutgoing_st pf s out opts req w))) \<and>
      (truthy (rd s (rd s opts (selected w)) ''searchParams'') \<and>
       \<not> truthy (rd s (rd s opts (selected w)) ''path'') \<longrightarrow>
         only_writes {out} s (fst (setupOutgoing_st pf s out opts req w))))
   \<and> (case snd (setupOutgoing_st pf s out opts req w) of
         Done r \<Rightarrow> r = out | Raised e \<Rightarrow> True | Exhausted \<Rightarrow> False)
   \<and> only_writes {} s (fst (rewriteCookieProperty_st d RegExp s header config property))
   \<and> (elems_at s header \<noteq> None \<longrightarrow>
        (case snd (rewriteCookieProperty_st d RegExp s header config property) of
           Done v \<Rightarrow> new_reference s v | _ \<Rightarrow> True))
   \<and> only_writes {} s (fst (removeCookieProperty_st d RegExp s header property))
   \<and> (elems_at s header \<noteq> None \<longrightarrow>
        (case snd (removeCookieProperty_st d RegExp s header property) of
           Done v \<Rightarrow> new_reference s v | _ \<Rightarrow> True))
   \<and> only_writes {} s (fst (mergeSetCookie_st s setCookie upstreamSetCookie))
   \<and> new_reference s (snd (mergeSetCookie_st s setCookie upstreamSetCookie))
   \<and> fst (getPort_st s req) = s
   \<and> fst (hasEncryptedConnection_st s req) = s"
proof -
  have 1: "is_object s out \<longrightarrow>
      only_writes {out, rd s opts (selected w)} s (fst (setupOutgoing_st pf s out opts req w)) \<and>
      (\<not> nullish (rd s opts (selected w)) \<longrightarrow>
         new_reference s (rd (fst (setupOutgoing_st pf s out opts req w)) out ''headers'')) \<and>
      (is_object s (rd s opts (selected w)) \<and> rd s opts (selected w) \<noteq> out \<longrightarrow>
         normalised_in_place s (rd s opts (selected w)) (fst (setupOutgoing_st pf s out opts req w))) \<and>
      (truthy (rd s (rd s opts (selected w)) ''searchParams'') \<and>
       \<not> truthy (rd s (rd s opts (selected w)) ''path'') \<longrightarrow>
         only_writes {out} s (fst (setupOutgoing_st pf s out opts req w)))"
    using setupOutgoing_st_only_writes [of s out opts w pf req]
          setupOutgoing_st_new_headers [of s out opts w pf req]
          setupOutgoing_st_normalises [of s out opts w pf req]
          setupOutgoing_st_target_kept [of s out opts w pf req]
    by blast
  have 2: "only_writes {} s (fst (rewriteCookieProperty_st d RegExp s header config property))"
    by (simp add: only_writes_kept rewriteCookieProperty_st_def kept_on_header)
  have 3: "only_writes {} s (fst (removeCookieProperty_st d RegExp s header property))"
    by (simp add: only_writes_kept removeCookieProperty_st_def kept_on_header)
  have 4: "only_writes {} s (fst (mergeSetCookie_st s setCookie upstreamSetCookie))"
    by (simp add: only_writes_kept kept_mergeSetCookie_st)
  have 5: "fst (getPort_st s req) = s" by (rule fst_getPort_st)
  have 6: "fst (hasEncryptedConnection_st s req) = s" by (simp add: hasEncryptedConnection_st_def)
  have 7: "case snd (setupOutgoing_st pf s out opts req w) of
             Done r \<Rightarrow> r = out | Raised e \<Rightarrow> True | Exhausted \<Rightarrow> False"
    by (rule setupOutgoing_st_result)
  have 8: "elems_at s header \<noteq> None \<longrightarrow>
        (case snd (rewriteCookieProperty_st d RegExp s header config property) of
           Done v \<Rightarrow> new_reference s v | _ \<Rightarrow> True)"
    using on_header_new_array [of s header _ d "rewrite_string RegExp config property"]
    by (auto simp: rewriteCookieProperty_st_def)
  have 9: "elems_at s header \<noteq> None \<longrightarrow>
        (case snd (removeCookieProperty_st d RegExp s header property) of
           Done v \<Rightarrow> new_reference s v | _ \<Rightarrow> True)"
    using on_header_new_array [of s header _ d "remove_string RegExp property"]
    by (auto simp: removeCookieProperty_st_def)
  have 10: "new_reference s (snd (mergeSetCookie_st s setCookie upstreamSetCookie))"
    by (rule mergeSetCookie_st_new_array)
  from 1 7 2 8 3 9 4 10 5 6 show ?thesis by (intro conjI)
qed

theorem only_target_and_outgoing_written_witness:
  "is_object legacy_store (JObj 4) \<and>
   rd legacy_store (JObj 0) (selected UseTarget) = JObj 1 \<and>
   fst (setupOutgoing_st node legacy_store (JObj 4) (JObj 0) (JObj 2) UseTarget) ! 0 = legacy_store ! 0 \<and>
   fst (setupOutgoing_st node legacy_store (JObj 4) (JObj 0) (JObj 2) UseTarget) ! 2 = legacy_store ! 2 \<and>
   fst (setupOutgoing_st node legacy_store (JObj 4) (JObj 0) (JObj 2) UseTarget) ! 3 = legacy_store ! 3 \<and>
   new_reference legacy_store (rd (fst (setupOutgoing_st node legacy_store (JObj 4) (JObj 0) (JObj 2) UseTarget)) (JObj 4) ''headers'') \<and>
   fields_at legacy_store (JObj 1) ''searchParams'' = None \<and>
   fields_at (fst (setupOutgoing_st node legacy_store (JObj 4) (JObj 0) (JObj 2) UseTarget)) (JObj 1) ''searchParams'' = Some (JObj 9) \<and>
   fst (setupOutgoing_st node legacy_store (JObj 4) (JObj 0) (JObj 2) UseTarget) ! 9 = Params [] \<and>
   fields_at (fst (setupOutgoing_st node legacy_store (JObj 4) (JObj 0) (JObj 2) UseTarget)) (JObj 1) ''pathname'' = Some (JStr ''/api'') \<and>
   fields_at (fst (setupOutgoing_st node legacy_store (JObj 4) (JObj 0) (JObj 2) UseTarget)) (JObj 1) ''path'' = None \<and>
   fields_at (fst (setupOutgoing_st node legacy_store (JObj 4) (JObj 0) (JObj 2) UseTarget)) (JObj 1) ''host'' = Some (JStr ''example.com'') \<and>
   rd legacy_store (JObj 0) (selected UseForward) = JObj 7 \<and>
   fst (setupOutgoing_st node legacy_store (JObj 4) (JObj 0) (JObj 2) UseForward) ! 7 = legacy_store ! 7 \<and>
   fst (setupOutgoing_st node legacy_store (JObj 4) (JObj 0) (JObj 2) UseForward) ! 8 = legacy_store ! 8 \<and>
   elems_at legacy_store (JObj 5) = Some [JStr ''sid=1; Domain=old.example; Secure''] \<and>
   (case snd (rewriteCookieProperty_st 2 sample_RegExp legacy_store (JObj 5) (JObj 6) ''domain'') of
      Done v \<Rightarrow> new_reference legacy_store v | _ \<Rightarrow> True) \<and>
   fst (rewriteCookieProperty_st 2 sample_RegExp legacy_store (JObj 5) (JObj 6) ''domain'') ! 5 = legacy_store ! 5 \<and>
   fst (removeCookieProperty_st 2 sample_RegExp legacy_store (JObj 5) ''domain'') ! 5 = legacy_store ! 5 \<and>
   fst (mergeSetCookie_st legacy_store (JStr ''a=b'') (JObj 5)) ! 5 = legacy_store ! 5 \<and>
   new_reference legacy_store (snd (mergeSetCookie_st legacy_store (JStr ''a=b'') (JObj 5))) \<and>
   fst (getPort_st legacy_store (JObj 2)) = legacy_store \<and>
   fst (hasEncryptedConnection_st legacy_store (JObj 2)) = legacy_store"
proof -
  let ?t = "fst (setupOutgoing_st node legacy_store (JObj 4) (JObj 0) (JObj 2) UseTarget)"
  let ?f = "fst (setupOutgoing_st node legacy_store (JObj 4) (JObj 0) (JObj 2) UseForward)"
  have len: "length legacy_store = 9"
    by (simp add: legacy_store_def)
  have out: "is_object legacy_store (JObj 4)"
    by (simp add: legacy_store_def is_object_def object_def)
  have tgt: "rd legacy_store (JObj 0) (selected UseTarget) = JObj 1"
    by (simp add: legacy_store_def rd_def fields_at_def object_def get_def selected_def)
  have fwd: "rd legacy_store (JObj 0) (selected UseForward) = JObj 7"
    by (simp add: legacy_store_def rd_def fields_at_def object_def get_def selected_def)
  have ot: "is_object legacy_store (JObj 1)"
    by (simp add: legacy_store_def is_object_def object_def)
  have t1: "fields_at legacy_store (JObj 1) ''searchParams'' = None"
           "fields_at legacy_store (JObj 1) ''path'' = Some (JStr ''/api'')"
           "fields_at legacy_store (JObj 1) ''host'' = Some (JStr ''example.com'')"
    by (simp_all add: legacy_store_def fields_at_def object_def)
  have t7: "truthy (rd legacy_store (JObj 7) ''searchParams'')"
           "\<not> truthy (rd legacy_store (JObj 7) ''path'')"
    by (simp_all add: legacy_store_def rd_def fields_at_def object_def get_def)
  have e5: "elems_at legacy_store (JObj 5) = Some [JStr ''sid=1; Domain=old.example; Secure'']"
    by (simp add: legacy_store_def elems_at_def)
  note T = only_target_and_outgoing_written [where s = legacy_store and out = "JObj 4" and opts = "JObj 0"
      and w = UseTarget and pf = node and req = "JObj 2" and d = 2 and RegExp = sample_RegExp
      and header = "JObj 5" and config = "JObj 6" and property = "''domain''"
      and setCookie = "JStr ''a=b''" and upstreamSetCookie = "JObj 5"]
  note F = only_target_and_outgoing_written [where s = legacy_store and out = "JObj 4" and opts = "JObj 0"
      and w = UseForward and pf = node and req = "JObj 2"]
  have nn: "\<not> nullish (rd legacy_store (JObj 0) (selected UseTarget))"
    by (simp add: tgt nullish_def)
  from T out tgt ot nn
  have w1: "only_writes {JObj 4, JObj 1} legacy_store ?t"
    and n1: "normalised_in_place legacy_store (JObj 1) ?t"
    and h1: "new_reference legacy_store (rd ?t (JObj 4) ''headers'')"
    by simp_all
  from F out fwd t7
  have w2: "only_writes {JObj 4} legacy_store ?f"
    by simp
  from T
  have c1: "only_writes {} legacy_store (fst (rewriteCookieProperty_st 2 sample_RegExp legacy_store (JObj 5) (JObj 6) ''domain''))"
    and c2: "only_writes {} legacy_store (fst (removeCookieProperty_st 2 sample_RegExp legacy_store (JObj 5) ''domain''))"
    and c3: "only_writes {} legacy_store (fst (mergeSetCookie_st legacy_store (JStr ''a=b'') (JObj 5)))"
    and c4: "fst (getPort_st legacy_store (JObj 2)) = legacy_store"
    and c5: "fst (hasEncryptedConnection_st legacy_store (JObj 2)) = legacy_store"
    and c6: "new_reference legacy_store (snd (mergeSetCookie_st legacy_store (JStr ''a=b'') (JObj 5)))"
    and c7: "elems_at legacy_store (JObj 5) \<noteq> None \<longrightarrow>
        (case snd (rewriteCookieProperty_st 2 sample_RegExp legacy_store (JObj 5) (JObj 6) ''domain'') of
           Done v \<Rightarrow> new_reference legacy_store v | _ \<Rightarrow> True)"
    by blast+
  have nr: "case snd (rewriteCookieProperty_st 2 sample_RegExp legacy_store (JObj 5) (JObj 6) ''domain'') of
      Done v \<Rightarrow> new_reference legacy_store v | _ \<Rightarrow> True"
    using c7 e5 by simp
  have a: "?t ! 0 = legacy_store ! 0" "?t ! 2 = legacy_store ! 2" "?t ! 3 = legacy_store ! 3"
    using w1 by (simp_all add: only_writes_def len)
  have b: "fields_at ?t (JObj 1) ''searchParams'' = Some (JObj 9)" "?t ! 9 = Params []"
          "fields_at ?t (JObj 1) ''pathname'' = Some (JStr ''/api'')"
          "fields_at ?t (JObj 1) ''path'' = None"
          "fields_at ?t (JObj 1) ''host'' = Some (JStr ''example.com'')"
    using n1 t1 by (simp_all add: normalised_in_place_def rd_def get_def len split: option.splits)
  have c: "?f ! 7 = legacy_store ! 7" "?f ! 8 = legacy_store ! 8"
    using w2 by (simp_all add: only_writes_def len)
  have d: "fst (rewriteCookieProperty_st 2 sample_RegExp legacy_store (JObj 5) (JObj 6) ''domain'') ! 5 = legacy_store ! 5"
          "fst (removeCookieProperty_st 2 sample_RegExp legacy_store (JObj 5) ''domain'') ! 5 = legacy_store ! 5"
          "fst (mergeSetCookie_st legacy_store (JStr ''a=b'') (JObj 5)) ! 5 = legacy_store ! 5"
    using c1 c2 c3 by (simp_all add: only_writes_def len)
  show ?thesis
    using out tgt fwd t1(1) a b c d c4 c5 c6 h1 e5 nr by (intro conjI)
qed

text \<open>
  A target given without a query container and with a legacy \<^verbatim>\<open>path\<close> is a different
  object after the call: it has an empty container, no \<^verbatim>\<open>path\<close> and a \<^verbatim>\<open>pathname\<close>.
\<close>

theorem setupOutgoing_rewrites_target:
  "target_query legacy_options = None \<and>
   target_attrs legacy_options ''path'' = Some (JStr ''/api'') \<and>
   target_attrs legacy_options ''pathname'' = None \<and>
   target_query (config_after (setupOutgoing node empty_outgoing legacy_options (plain_request ''/'' []) UseTarget)) = Some [] \<and>
   target_attrs (config_after (setupOutgoing node empty_outgoing legacy_options (plain_request ''/'' []) UseTarget)) ''path'' = None \<and>
   target_attrs (config_after (setupOutgoing node empty_outgoing legacy_options (plain_request ''/'' []) UseTarget)) ''pathname'' = Some (JStr ''/api'')"
  by (simp add: config_after_setupOutgoing legacy_options_def no_options_def pick_def put_def
        an_object_def resolve_def Let_def get_def target_query_def target_attrs_def)

lemma indexOf_absent: "(indexOf h c = - 1) = (c \<notin> set h)"
proof (induction h)
  case Nil
  show ?case by simp
next
  case (Cons x xs)
  have "indexOf xs c \<ge> - 1" for xs
    by (induction xs) (auto simp: Let_def)
  then have "indexOf xs c + 1 \<noteq> - 1"
    by (smt (verit))
  with Cons show ?case by (auto simp: Let_def)
qed

lemma hasPort_Some: "hasPort (Some h) = Inr (CHR '':'' \<in> set h)"
  using indexOf_absent [of h "CHR '':''"] by (auto simp: hasPort_def)

lemma no_prepend_options_returned:
  "returned (setupOutgoing node empty_outgoing no_prepend_options (plain_request ''/api/users'' []) UseTarget)"
  by (simp add: example_defs no_prepend_options_def)

text \<open>
  C8, as the code has it. With \<^verbatim>\<open>prependPath\<close> explicitly false the target's pathname
  takes no part in the outgoing path: the path is what the request contributes (its
  parsed path, its raw URL under \<^verbatim>\<open>toProxy\<close>, nothing under \<^verbatim>\<open>ignorePath\<close>) with runs of
  slashes collapsed, followed by the merged query.
\<close>

theorem setupOutgoing_prependPath_false:
  assumes "returned (setupOutgoing pf out opts req w)"
    and "prependPath opts = JBool False"
    and "pick w opts = Some t"
    and "new_URL pf (case url req of None \<Rightarrow> ''undefined'' | Some u \<Rightarrow> u) = Some parsed"
  shows "out_fields (outgoing_after (setupOutgoing pf out opts req w)) ''path'' =
           Some (JStr (collapse_slashes
                         (if truthy (outgoingPath opts req (merge_query parsed (case searchParams t of None \<Rightarrow> [] | Some es \<Rightarrow> es)))
                          then ToString (outgoingPath opts req (merge_query parsed (case searchParams t of None \<Rightarrow> [] | Some es \<Rightarrow> es)))
                          else [])
                       @ search (merge_query parsed (case searchParams t of None \<Rightarrow> [] | Some es \<Rightarrow> es))))"
proof -
  from assms(1) obtain t0 parsed0 where
    t0: "pick w opts = Some t0"
    and pu: "new_URL pf (case url req of None \<Rightarrow> ''undefined'' | Some u \<Rightarrow> u) = Some parsed0"
    and fs: "out_fields (outgoing_after (setupOutgoing pf out opts req w)) =
       (redirect_fields opts (base_fields opts req (resolve t0) (out_fields out)))
         (''path'' \<mapsto> JStr (compose_path (targetPath opts (resolve t0))
              (outgoingPath opts req (merge_query parsed0 (case searchParams (resolve t0) of None \<Rightarrow> [] | Some es \<Rightarrow> es)))
              (search (merge_query parsed0 (case searchParams (resolve t0) of None \<Rightarrow> [] | Some es \<Rightarrow> es)))))"
    by (rule setupOutgoing_returned)
  from t0 pu assms(3,4) have [simp]: "t0 = t" "parsed0 = parsed" by simp_all
  show ?thesis
    by (simp add: fs targetPath_def assms(2) compose_path_def resolve_searchParams)
qed

theorem setupOutgoing_prependPath_false_witness:
  "returned (setupOutgoing node empty_outgoing no_prepend_options (plain_request ''/api/users'' []) UseTarget) \<and>
   prependPath no_prepend_options = JBool False \<and>
   out_fields (outgoing_after (setupOutgoing node empty_outgoing no_prepend_options (plain_request ''/api/users'' []) UseTarget)) ''path'' =
     Some (JStr ''/api/users'')"
  using setupOutgoing_prependPath_false [OF no_prepend_options_returned,
      of "an_object [(''protocol'', JStr ''http:''), (''host'', JStr ''api.example.com''), (''pathname'', JStr ''/api'')] (Some [])"
         "\<lparr>pathname = ''/api/users'', search = '''', entries = []\<rparr>"]
    no_prepend_options_returned
  by (simp add: no_prepend_options_def no_options_def pick_def an_object_def node_def sample_URL_def
        plain_request_def merge_query_def outgoingPath_def js_or_def)

text \<open>
  A request for \<^verbatim>\<open>/api/users\<close> sent to a target with pathname \<^verbatim>\<open>/api\<close> goes out as
  \<^verbatim>\<open>/api/users\<close>, which has the target's pathname as a prefix.
\<close>

theorem path_keeps_target_pathname_prefix:
  "prependPath no_prepend_options = JBool False \<and>
   target_attrs no_prepend_options ''pathname'' = Some (JStr ''/api'') \<and>
   returned (setupOutgoing node empty_outgoing no_prepend_options (plain_request ''/api/users'' []) UseTarget) \<and>
   out_fields (outgoing_after (setupOutgoing node empty_outgoing no_prepend_options (plain_request ''/api/users'' []) UseTarget)) ''path'' =
     Some (JStr ''/api/users'') \<and>
   prefix ''/api'' ''/api/users''"
  by (simp add: example_defs no_prepend_options_def target_attrs_def targetPath_def outgoingPath_def
        compose_path_def js_or_def)

lemma opt_toString_Some: "opt_toString v = (if v = JUndefined \<or> v = JNull then None else Some (ToString v))"
  by (cases v) simp_all

lemma hasPort_None: "hasPort None = Inl TypeError"
  by (simp add: hasPort_def)

lemma host_header_Inr:
  "host_header pf protocol host port = Inr h \<Longrightarrow>
   h = (if required pf port protocol = Some True \<and> CHR '':'' \<notin> set (ToString host)
        then JStr (ToString host @ '':'' @ ToString port) else host)"
  by (auto simp: host_header_def opt_toString_Some hasPort_Some hasPort_None
      split: option.splits bool.splits if_splits)

lemma host_header_Inl:
  "(host_header pf protocol host port = Inl e) =
   (e = TypeError \<and> (required pf port protocol = None \<or>
      required pf port protocol = Some True \<and> (host = JUndefined \<or> host = JNull)))"
  by (auto simp: host_header_def opt_toString_Some hasPort_Some hasPort_None
      split: option.splits bool.splits if_splits)

text \<open>Every way a call can throw.\<close>

lemma setupOutgoing_fault_of:
  "fault_of (setupOutgoing pf out opts req w) =
     (case pick w opts of
        None \<Rightarrow> Some TypeError
      | Some t \<Rightarrow>
          (case new_URL pf (case url req of None \<Rightarrow> ''undefined'' | Some u \<Rightarrow> u) of
             None \<Rightarrow> Some InvalidURL
           | Some parsed \<Rightarrow>
               if truthy (changeOrigin opts)
               then (case host_header pf (get (attrs t) ''protocol'') (get (attrs t) ''host'')
                            (js_or (get (attrs t) ''port'') (JNum (if sslEnabled t then 443 else 80))) of
                       Inl e \<Rightarrow> Some e | Inr h \<Rightarrow> None)
               else None))"
proof (cases "pick w opts")
  case None
  then show ?thesis by (simp add: setupOutgoing_def)
next
  case (Some t)
  show ?thesis
  proof (cases "new_URL pf (case url req of None \<Rightarrow> ''undefined'' | Some u \<Rightarrow> u)")
    case None
    with Some show ?thesis by (simp add: setupOutgoing_def Let_def)
  next
    case (Some parsed)
    show ?thesis
      unfolding setupOutgoing_eq [OF \<open>pick w opts = Some t\<close> Some]
      by (simp add: Let_def \<open>pick w opts = Some t\<close> Some split: sum.splits)
  qed
qed

lemma origin_options_returned:
  "returned (setupOutgoing node empty_outgoing (origin_options ''https:'' ''api.example.com'' JUndefined) (plain_request ''/'' []) UseTarget)"
  "returned (setupOutgoing node empty_outgoing (origin_options ''http:'' ''host'' (JNum 8080)) (plain_request ''/'' []) UseTarget)"
  by (simp_all add: example_defs origin_options_def host_header_def requires_port_def
       base_fields_def redirect_fields_def copy_fields_def copied_def get_def js_or_def
       sslEnabled_def isSSL_test_def hasPort_def)

text \<open>
  C4, as the code has it. With a truthy \<^verbatim>\<open>changeOrigin\<close>, a call that returns has set the
  \<^verbatim>\<open>host\<close> header to the target's host followed by \<^verbatim>\<open>:port\<close> exactly when
  \<^verbatim>\<open>required\<close> answers true for the port and the target's scheme and the target's host
  (\<^verbatim>\<open>outgoing.host\<close>, not the request's \<^verbatim>\<open>host\<close> header) has no colon in it, and to the
  target's host as it is otherwise. The witness has the two cases of the claim: scheme
  https with the default port 443 gives the bare host, scheme http with port 8080 gives
  \<^verbatim>\<open>host:8080\<close>.
\<close>

theorem setupOutgoing_changeOrigin_host:
  assumes "returned (setupOutgoing pf out opts req w)"
    and "truthy (changeOrigin opts)"
    and "pick w opts = Some t"
  shows "out_headers (outgoing_after (setupOutgoing pf out opts req w)) ''host'' =
           Some (if required pf (js_or (get (attrs t) ''port'') (JNum (if sslEnabled t then 443 else 80)))
                      (get (attrs t) ''protocol'') = Some True
                    \<and> CHR '':'' \<notin> set (ToString (get (attrs t) ''host''))
                 then JStr (ToString (get (attrs t) ''host'') @ '':'' @
                            ToString (js_or (get (attrs t) ''port'') (JNum (if sslEnabled t then 443 else 80))))
                 else get (attrs t) ''host'')"
proof -
  from assms(1) obtain t0 where
    t0: "pick w opts = Some t0"
    and hh: "truthy (changeOrigin opts) \<longrightarrow>
       host_header pf (get (attrs t0) ''protocol'') (get (attrs t0) ''host'')
         (js_or (get (attrs t0) ''port'') (JNum (if sslEnabled t0 then 443 else 80))) =
       Inr (get (out_headers (outgoing_after (setupOutgoing pf out opts req w))) ''host'') \<and>
       ''host'' \<in> dom (out_headers (outgoing_after (setupOutgoing pf out opts req w)))"
    by (rule setupOutgoing_returned)
  from t0 assms(3) have [simp]: "t0 = t" by simp
  from hh assms(2) have
    h: "host_header pf (get (attrs t) ''protocol'') (get (attrs t) ''host'')
         (js_or (get (attrs t) ''port'') (JNum (if sslEnabled t then 443 else 80))) =
       Inr (get (out_headers (outgoing_after (setupOutgoing pf out opts req w))) ''host'')"
    and d: "''host'' \<in> dom (out_headers (outgoing_after (setupOutgoing pf out opts req w)))"
    by simp_all
  from d have "out_headers (outgoing_after (setupOutgoing pf out opts req w)) ''host'' =
      Some (get (out_headers (outgoing_after (setupOutgoing pf out opts req w))) ''host'')"
    by (auto simp: get_def)
  with host_header_Inr [OF h] show ?thesis by simp
qed

theorem setupOutgoing_changeOrigin_host_witness:
  "truthy (changeOrigin (origin_options ''https:'' ''api.example.com'' JUndefined)) \<and>
   out_headers (outgoing_after (setupOutgoing node empty_outgoing (origin_options ''https:'' ''api.example.com'' JUndefined)
     (plain_request ''/'' []) UseTarget)) ''host'' = Some (JStr ''api.example.com'') \<and>
   out_fields (outgoing_after (setupOutgoing node empty_outgoing (origin_options ''https:'' ''api.example.com'' JUndefined)
     (plain_request ''/'' []) UseTarget)) ''port'' = Some (JNum 443) \<and>
   out_headers (outgoing_after (setupOutgoing node empty_outgoing (origin_options ''http:'' ''host'' (JNum 8080))
     (plain_request ''/'' []) UseTarget)) ''host'' = Some (JStr ''host:8080'')"
proof -
  have a: "out_headers (outgoing_after (setupOutgoing node empty_outgoing (origin_options ''https:'' ''api.example.com'' JUndefined)
     (plain_request ''/'' []) UseTarget)) ''host'' = Some (JStr ''api.example.com'')"
    using setupOutgoing_changeOrigin_host [OF origin_options_returned(1),
        of "an_object [(''protocol'', JStr ''https:''), (''host'', JStr ''api.example.com''), (''port'', JUndefined)] (Some [])"]
    by (simp add: origin_options_def no_options_def pick_def an_object_def get_def js_or_def
          sslEnabled_def isSSL_test_def node_def requires_port_def)
  have b: "out_headers (outgoing_after (setupOutgoing node empty_outgoing (origin_options ''http:'' ''host'' (JNum 8080))
     (plain_request ''/'' []) UseTarget)) ''host'' = Some (JStr ''host:8080'')"
    using setupOutgoing_changeOrigin_host [OF origin_options_returned(2),
        of "an_object [(''protocol'', JStr ''http:''), (''host'', JStr ''host''), (''port'', JNum 8080)] (Some [])"]
    by (simp add: origin_options_def no_options_def pick_def an_object_def get_def js_or_def
          sslEnabled_def isSSL_test_def node_def requires_port_def dec.simps)
  have c: "out_fields (outgoing_after (setupOutgoing node empty_outgoing (origin_options ''https:'' ''api.example.com'' JUndefined)
     (plain_request ''/'' []) UseTarget)) ''port'' = Some (JNum 443)"
    by (simp add: example_defs origin_options_def host_header_def requires_port_def
       base_fields_def redirect_fields_def copy_fields_def copied_def get_def js_or_def
       sslEnabled_def isSSL_test_def hasPort_def)
  show ?thesis using a b c by (simp add: origin_options_def no_options_def)
qed

text \<open>
  The request's \<^verbatim>\<open>host\<close> header has a colon, and the port is appended all the same.
\<close>

theorem host_suffix_ignores_host_header:
  "get (req_headers (plain_request ''/'' [(''host'', JStr ''localhost:3000'')])) ''host'' = JStr ''localhost:3000'' \<and>
   CHR '':'' \<in> set ''localhost:3000'' \<and>
   truthy (changeOrigin (origin_options ''http:'' ''api.example.com'' (JNum 8080))) \<and>
   returned (setupOutgoing node empty_outgoing (origin_options ''http:'' ''api.example.com'' (JNum 8080))
     (plain_request ''/'' [(''host'', JStr ''localhost:3000'')]) UseTarget) \<and>
   out_headers (outgoing_after (setupOutgoing node empty_outgoing (origin_options ''http:'' ''api.example.com'' (JNum 8080))
     (plain_request ''/'' [(''host'', JStr ''localhost:3000'')]) UseTarget)) ''host'' = Some (JStr ''api.example.com:8080'')"
  by (simp add: example_defs origin_options_def host_header_def requires_port_def
       base_fields_def redirect_fields_def copy_fields_def copied_def get_def js_or_def
       sslEnabled_def isSSL_test_def hasPort_def dec.simps)

text \<open>
  C5 at a target that is there, with a request URL that parses: the target names its
  host by \<^verbatim>\<open>hostname\<close> only, \<^verbatim>\<open>changeOrigin\<close> is on and the port 8080 is not the
  default for http, so \<^verbatim>\<open>hasPort\<close> is handed \<^verbatim>\<open>undefined\<close> and the call throws.
\<close>

theorem hostless_target_throws:
  "target_attrs hostless_options ''host'' = None \<and>
   target_attrs hostless_options ''hostname'' = Some (JStr ''localhost'') \<and>
   new_URL node ''/'' = Some \<lparr>pathname = ''/'', search = '''', entries = []\<rparr> \<and>
   fault_of (setupOutgoing node empty_outgoing hostless_options (plain_request ''/'' []) UseTarget) = Some TypeError"
  by (simp add: setupOutgoing_fault_of hostless_options_def no_options_def pick_def an_object_def
        target_attrs_def node_def sample_URL_def plain_request_def host_header_def requires_port_def
        get_def js_or_def hasPort_def)

lemma ws_to_upper: "ws c \<Longrightarrow> to_upper c = c"
  by (auto simp: ws_def) (simp_all add: to_upper_def)

lemma not_ws_comma: "\<not> ws comma"
  by (simp add: ws_def comma_def)

lemma upper_U_not_ws: "to_upper c = CHR ''U'' \<Longrightarrow> \<not> ws c"
  using ws_to_upper [of c] by (auto simp: ws_def)

lemma upgrade_length: "length ''upgrade'' = 7"
  by simp

lemma upgrade_upper: "map to_upper ''upgrade'' = ''UPGRADE''"
  by (simp add: to_upper_def)

lemma ci_prefix_upgrade: "ci_prefix ''upgrade'' x = upgrade_word (take 7 x)"
  by (simp only: ci_prefix_def upgrade_length upgrade_upper upgrade_word_def)

lemma upgrade_word_length: "upgrade_word u \<Longrightarrow> length u = 7"
proof -
  assume "upgrade_word u"
  then have "length (map to_upper u) = length ''UPGRADE''"
    unfolding upgrade_word_def by (rule arg_cong)
  then show ?thesis by simp
qed

lemma upgrade_word_not_ws: "upgrade_word u \<Longrightarrow> dropWhile ws (u @ r) = u @ r"
proof -
  assume u: "upgrade_word u"
  then obtain c u' where cu: "u = c # u'"
    using upgrade_word_length [OF u] by (cases u) auto
  from u have "to_upper c = CHR ''U''"
    unfolding cu upgrade_word_def by simp
  then have "\<not> ws c" by (rule upper_U_not_ws)
  then show ?thesis unfolding cu by simp
qed

lemma dropWhile_all: "list_all P xs \<Longrightarrow> dropWhile P (xs @ ys) = dropWhile P ys"
  by (induction xs) auto

lemma list_all_takeWhile: "list_all P (takeWhile P xs)"
  by (induction xs) auto

lemma tail_case: "(case r of [] \<Rightarrow> True | c # x \<Rightarrow> c = CHR '','') = (r = [] \<or> hd r = comma)"
  by (cases r) (simp_all add: comma_def)

lemma upgrade_here_decomp:
  assumes "upgrade_here s"
  shows "s = takeWhile ws s @ take 7 (dropWhile ws s) @ takeWhile ws (drop 7 (dropWhile ws s))
               @ dropWhile ws (drop 7 (dropWhile ws s))"
    and "upgrade_word (take 7 (dropWhile ws s))"
    and "dropWhile ws (drop 7 (dropWhile ws s)) = [] \<or> hd (dropWhile ws (drop 7 (dropWhile ws s))) = comma"
proof -
  show "s = takeWhile ws s @ take 7 (dropWhile ws s) @ takeWhile ws (drop 7 (dropWhile ws s))
               @ dropWhile ws (drop 7 (dropWhile ws s))"
    by simp
  from assms show "upgrade_word (take 7 (dropWhile ws s))"
    unfolding upgrade_here_def Let_def ci_prefix_upgrade by (rule conjunct1)
  from assms show "dropWhile ws (drop 7 (dropWhile ws s)) = [] \<or> hd (dropWhile ws (drop 7 (dropWhile ws s))) = comma"
    unfolding upgrade_here_def Let_def tail_case by (rule conjunct2)
qed

lemma upgrade_here_intro:
  assumes w1: "list_all ws w1" and u: "upgrade_word u" and w2: "list_all ws w2"
    and post: "post = [] \<or> hd post = comma"
  shows "upgrade_here (w1 @ u @ w2 @ post)"
proof -
  have s1: "dropWhile ws (w1 @ u @ w2 @ post) = u @ w2 @ post"
    unfolding dropWhile_all [OF w1] by (rule upgrade_word_not_ws [OF u])
  have t7: "take 7 (u @ w2 @ post) = u" and d7: "drop 7 (u @ w2 @ post) = w2 @ post"
    using upgrade_word_length [OF u] by simp_all
  have r: "dropWhile ws (w2 @ post) = post"
    unfolding dropWhile_all [OF w2] using post not_ws_comma by (cases post) auto
  show ?thesis
    unfolding upgrade_here_def Let_def ci_prefix_upgrade tail_case s1 t7 d7 r
    using u post by (rule conjI)
qed

lemma after_comma_intro: "upgrade_here rest \<Longrightarrow> after_comma (pre @ CHR '','' # rest)"
  by (induction pre) simp_all

lemma after_comma_decomp:
  "after_comma s \<Longrightarrow> \<exists>pre rest. s = (pre @ [comma]) @ rest \<and> upgrade_here rest"
proof (induction s)
  case Nil
  then show ?case by simp
next
  case (Cons c cs)
  from Cons.prems consider "c = CHR '',''" "upgrade_here cs" | "after_comma cs" by auto
  then show ?case
  proof cases
    case 1
    then have "c # cs = ([] @ [comma]) @ cs \<and> upgrade_here cs" by (simp add: comma_def)
    then show ?thesis by (intro exI)
  next
    case 2
    with Cons.IH obtain pre rest where "cs = (pre @ [comma]) @ rest \<and> upgrade_here rest"
      by blast
    then have "c # cs = ((c # pre) @ [comma]) @ rest \<and> upgrade_here rest" by simp
    then show ?thesis by (intro exI)
  qed
qed

lemma upgradeHeader_test_iff: "upgradeHeader_test s = upgrade_token s"
proof
  assume "upgradeHeader_test s"
  then consider "upgrade_here s" | "after_comma s" by (auto simp: upgradeHeader_test_def)
  then show "upgrade_token s"
  proof cases
    case 1
    have "s = [] @ takeWhile ws s @ take 7 (dropWhile ws s) @ takeWhile ws (drop 7 (dropWhile ws s))
               @ dropWhile ws (drop 7 (dropWhile ws s)) \<and> ([] = [] \<or> last [] = comma) \<and>
          list_all ws (takeWhile ws s) \<and> upgrade_word (take 7 (dropWhile ws s)) \<and>
          list_all ws (takeWhile ws (drop 7 (dropWhile ws s))) \<and>
          (dropWhile ws (drop 7 (dropWhile ws s)) = [] \<or> hd (dropWhile ws (drop 7 (dropWhile ws s))) = comma)"
      using upgrade_here_decomp [OF 1] list_all_takeWhile [of ws] by simp
    then show ?thesis unfolding upgrade_token_def by (intro exI)
  next
    case 2
    from after_comma_decomp [OF 2] obtain pre rest where s: "s = (pre @ [comma]) @ rest" and h: "upgrade_here rest"
      by blast
    have "s = (pre @ [comma]) @ takeWhile ws rest @ take 7 (dropWhile ws rest) @ takeWhile ws (drop 7 (dropWhile ws rest))
               @ dropWhile ws (drop 7 (dropWhile ws rest)) \<and> (pre @ [comma] = [] \<or> last (pre @ [comma]) = comma) \<and>
          list_all ws (takeWhile ws rest) \<and> upgrade_word (take 7 (dropWhile ws rest)) \<and>
          list_all ws (takeWhile ws (drop 7 (dropWhile ws rest))) \<and>
          (dropWhile ws (drop 7 (dropWhile ws rest)) = [] \<or> hd (dropWhile ws (drop 7 (dropWhile ws rest))) = comma)"
      using upgrade_here_decomp [OF h] list_all_takeWhile [of ws] unfolding s by simp
    then show ?thesis unfolding upgrade_token_def by (intro exI)
  qed
next
  assume "upgrade_token s"
  then obtain pre w1 u w2 post where s: "s = pre @ w1 @ u @ w2 @ post"
    and pre: "pre = [] \<or> last pre = comma"
    and r: "list_all ws w1" "upgrade_word u" "list_all ws w2" "post = [] \<or> hd post = comma"
    unfolding upgrade_token_def by blast
  from r have h: "upgrade_here (w1 @ u @ w2 @ post)"
    by (rule upgrade_here_intro)
  show "upgradeHeader_test s"
  proof (cases "pre = []")
    case True
    with s h show ?thesis by (simp add: upgradeHeader_test_def)
  next
    case False
    with pre have "pre = butlast pre @ [CHR '','']"
      using append_butlast_last_id [of pre] by (simp add: comma_def)
    then have "s = butlast pre @ CHR '','' # (w1 @ u @ w2 @ post)"
      unfolding s by (metis append.assoc append_Cons append_Nil)
    with after_comma_intro [OF h] have "after_comma s" by simp
    then show ?thesis by (simp add: upgradeHeader_test_def)
  qed
qed

lemma upgrade_options_returned:
  "returned (setupOutgoing node empty_outgoing upgrade_options (plain_request ''/'' hs) UseTarget)"
  by (simp add: example_defs upgrade_options_def)

text \<open>
  C9. When no agent is configured (\<^verbatim>\<open>options.agent\<close> is falsy), a call that returns has
  set the descriptor's \<^verbatim>\<open>agent\<close> to \<^verbatim>\<open>false\<close>, and the \<^verbatim>\<open>connection\<close> header (of the
  request's headers with the configured ones on top) is kept as it is when it is a string
  that has \<^verbatim>\<open>upgrade\<close> as a token in the sense of \<open>upgrade_token\<close>, and is \<^verbatim>\<open>close\<close>
  in every other case: a string without the token such as \<^verbatim>\<open>keep-alive\<close>, an absent
  header, a value that is not a string.
\<close>

theorem setupOutgoing_connection_header:
  assumes "returned (setupOutgoing pf out opts req w)"
    and "\<not> truthy (agent opts)"
  shows "out_fields (outgoing_after (setupOutgoing pf out opts req w)) ''agent'' = Some (JBool False) \<and>
         out_headers (outgoing_after (setupOutgoing pf out opts req w)) ''connection'' =
           (case get (merged_headers opts req) ''connection'' of
              JStr c \<Rightarrow> if upgrade_token c then Some (JStr c) else Some (JStr ''close'')
            | _ \<Rightarrow> Some (JStr ''close''))"
proof -
  from assms(1) obtain t0 parsed where
    fs: "out_fields (outgoing_after (setupOutgoing pf out opts req w)) =
       (redirect_fields opts (base_fields opts req (resolve t0) (out_fields out)))
         (''path'' \<mapsto> JStr (compose_path (targetPath opts (resolve t0))
              (outgoingPath opts req (merge_query parsed (case searchParams (resolve t0) of None \<Rightarrow> [] | Some es \<Rightarrow> es)))
              (search (merge_query parsed (case searchParams (resolve t0) of None \<Rightarrow> [] | Some es \<Rightarrow> es)))))"
    and hs: "\<forall>k. k \<noteq> ''host'' \<or> \<not> truthy (changeOrigin opts) \<longrightarrow>
       out_headers (outgoing_after (setupOutgoing pf out opts req w)) k =
       connection_header (base_fields opts req (resolve t0) (out_fields out)) (merged_headers opts req) k"
    by (rule setupOutgoing_returned)
  have ag: "out_fields (outgoing_after (setupOutgoing pf out opts req w)) ''agent'' = Some (JBool False)"
    using assms(2) by (simp add: fs redirect_fields_other base_fields_agent js_or_def)
  have "get (base_fields opts req (resolve t0) (out_fields out)) ''agent'' = JBool False"
    using assms(2) by (simp add: get_def base_fields_agent js_or_def)
  then have ch: "connection_header (base_fields opts req (resolve t0) (out_fields out)) (merged_headers opts req) ''connection'' =
      (case get (merged_headers opts req) ''connection'' of
              JStr c \<Rightarrow> if upgrade_token c then Some (JStr c) else Some (JStr ''close'')
            | _ \<Rightarrow> Some (JStr ''close''))"
    by (auto simp: connection_header_def upgradeHeader_test_iff get_def split: jsval.splits option.splits)
  from hs have "out_headers (outgoing_after (setupOutgoing pf out opts req w)) ''connection'' =
       connection_header (base_fields opts req (resolve t0) (out_fields out)) (merged_headers opts req) ''connection''"
    by simp
  with ag ch show ?thesis by simp
qed

lemma upgrade_token_examples:
  "upgrade_token ''Upgrade''" "upgrade_token ''keep-alive, Upgrade''" "\<not> upgrade_token ''keep-alive''"
  unfolding upgradeHeader_test_iff [symmetric]
  by (simp_all add: upgradeHeader_test_def upgrade_here_def ci_prefix_def to_upper_def ws_def)

theorem setupOutgoing_connection_header_witness:
  "\<not> truthy (agent upgrade_options) \<and>
   out_fields (outgoing_after (setupOutgoing node empty_outgoing upgrade_options
     (plain_request ''/'' [(''connection'', JStr ''Upgrade'')]) UseTarget)) ''agent'' = Some (JBool False) \<and>
   out_headers (outgoing_after (setupOutgoing node empty_outgoing upgrade_options
     (plain_request ''/'' [(''connection'', JStr ''Upgrade'')]) UseTarget)) ''connection'' = Some (JStr ''Upgrade'') \<and>
   out_headers (outgoing_after (setupOutgoing node empty_outgoing upgrade_options
     (plain_request ''/'' [(''connection'', JStr ''keep-alive'')]) UseTarget)) ''connection'' = Some (JStr ''close'') \<and>
   out_headers (outgoing_after (setupOutgoing node empty_outgoing upgrade_options
     (plain_request ''/'' []) UseTarget)) ''connection'' = Some (JStr ''close'')"
  using setupOutgoing_connection_header [OF upgrade_options_returned, of "[(''connection'', JStr ''Upgrade'')]"]
        setupOutgoing_connection_header [OF upgrade_options_returned, of "[(''connection'', JStr ''keep-alive'')]"]
        setupOutgoing_connection_header [OF upgrade_options_returned, of "[]"]
  by (simp add: upgrade_options_def no_options_def merged_headers_def plain_request_def get_def
        upgrade_token_examples)

lemma filter_set_entry:
  "filter (\<lambda>e. fst e = k) (set_entry k' v' es) =
     (if k = k' then [(k', v')] else filter (\<lambda>e. fst e = k) es)"
proof (induction es)
  case Nil
  show ?case by simp
next
  case (Cons a es)
  have "k' \<noteq> k \<Longrightarrow> filter (\<lambda>x. fst x \<noteq> k' \<and> fst x = k) es = filter (\<lambda>e. fst e = k) es"
    by (rule filter_cong) auto
  with Cons show ?case by (auto simp: filter_empty_conv)
qed

lemma keys_set_entry:
  "map fst (set_entry k v es) =
     (if k \<in> set (map fst es) then remove_later k (map fst es) else map fst es @ [k])"
  by (induction es) (auto simp: filter_map comp_def)

lemma remove_later_absent: "k \<notin> set xs \<Longrightarrow> remove_later k xs = xs"
  by (induction xs) auto

lemma remove_later_distinct: "distinct xs \<Longrightarrow> remove_later k xs = xs"
  by (induction xs) (auto simp: filter_id_conv)

lemma remove_later_append:
  "remove_later k (xs @ ys) =
     (if k \<in> set xs then remove_later k xs @ filter (\<lambda>y. y \<noteq> k) ys else xs @ remove_later k ys)"
  by (induction xs) auto

lemma filter_keep_first_from:
  "k \<in> seen \<Longrightarrow> filter (\<lambda>y. y \<noteq> k) (keep_first_from S seen xs) = keep_first_from (insert k S) seen xs"
  by (induction xs arbitrary: seen) (auto simp: insert_absorb)

lemma remove_later_keep_first_from:
  "k \<notin> seen \<Longrightarrow> remove_later k (keep_first_from S seen xs) = keep_first_from (insert k S) seen xs"
  by (induction xs arbitrary: seen) (auto simp: filter_keep_first_from)

lemma set_keep_first_from:
  "set (keep_first_from S seen xs) = {x \<in> set xs. \<not> (x \<in> S \<and> x \<in> seen)}"
  by (induction xs arbitrary: seen) auto

lemma set_keep_first: "set (keep_first S xs) = set xs"
  by (simp add: keep_first_def set_keep_first_from)

lemma remove_later_keep_first: "remove_later k (keep_first S xs) = keep_first (insert k S) xs"
  by (simp add: keep_first_def remove_later_keep_first_from)

lemma set_first_occurrences: "set (first_occurrences xs) = set xs"
  by (induction xs) auto

lemma distinct_first_occurrences: "distinct (first_occurrences xs)"
  by (induction xs) (auto simp: set_first_occurrences)

lemma first_occurrences_snoc:
  "first_occurrences (xs @ [k]) = (if k \<in> set xs then first_occurrences xs else first_occurrences xs @ [k])"
  by (induction xs) auto

lemma entries_merge_query:
  "entries (merge_query u T) = fold (\<lambda>e es. set_entry (fst e) (snd e) es) T (entries u)"
  by (induction T arbitrary: u) (simp_all add: merge_query_def searchParams_set_def Let_def)

lemma merge_query_snoc:
  "merge_query u (T @ [e]) = searchParams_set (merge_query u T) (fst e) (snd e)"
  by (simp add: merge_query_def)

lemma merged_keys:
  "map fst (entries (merge_query u T)) =
     keep_first (fst ` set T) (map fst (entries u)) @
     filter (\<lambda>k. k \<notin> fst ` set (entries u)) (first_occurrences (map fst T))"
proof (induction T rule: rev_induct)
  case Nil
  have "keep_first_from {} seen xs = xs" for seen :: "string set" and xs
    by (induction xs arbitrary: seen) auto
  then show ?case by (simp add: merge_query_def keep_first_def)
next
  case (snoc e T)
  define R where "R = fst ` set (entries u)"
  define k where "k = fst e"
  define A where "A = keep_first (fst ` set T) (map fst (entries u))"
  define B where "B = filter (\<lambda>k. k \<notin> R) (first_occurrences (map fst T))"
  define M where "M = map fst (entries (merge_query u (T @ [e])))"
  have IH: "map fst (entries (merge_query u T)) = A @ B"
    unfolding A_def B_def R_def by (rule snoc.IH)
  have keys: "M = (if k \<in> set (A @ B) then remove_later k (A @ B) else (A @ B) @ [k])"
    unfolding M_def merge_query_snoc searchParams_set_def Let_def k_def
    by (simp add: keys_set_entry IH del: set_append map_append)
  have dB: "distinct B" by (simp add: B_def distinct_first_occurrences)
  have sA: "set A = R" by (simp add: A_def R_def set_keep_first)
  have sB: "set B = fst ` set T - R"
    by (auto simp: B_def set_first_occurrences)
  have A': "keep_first (fst ` set (T @ [e])) (map fst (entries u)) = remove_later k A"
    by (simp add: A_def k_def remove_later_keep_first)
  have goal: "keep_first (fst ` set (T @ [e])) (map fst (entries u)) @
      filter (\<lambda>k. k \<notin> fst ` set (entries u)) (first_occurrences (map fst (T @ [e]))) =
      remove_later k A @
      (if k \<in> fst ` set T then B else if k \<in> R then B else B @ [k])"
    unfolding A' by (simp add: first_occurrences_snoc B_def R_def k_def)
  have "M = remove_later k A @ (if k \<in> fst ` set T then B else if k \<in> R then B else B @ [k])"
  proof (cases "k \<in> R")
    case True
    then have "\<forall>y \<in> set B. y \<noteq> k"
      unfolding sB by blast
    then have "filter (\<lambda>y. y \<noteq> k) B = B"
      by (rule filter_True)
    with True show ?thesis
      unfolding keys by (simp add: remove_later_append sA)
  next
    case False
    then have A: "remove_later k A = A"
      by (simp add: remove_later_absent sA)
    show ?thesis
    proof (cases "k \<in> fst ` set T")
      case True
      with False have "k \<in> set B" unfolding sB by simp
      with False True show ?thesis
        unfolding keys A by (simp add: remove_later_append sA remove_later_distinct [OF dB])
    next
      case notT: False
      with False have "k \<notin> set B" unfolding sB by simp
      with False notT show ?thesis
        unfolding keys A by (simp add: sA)
    qed
  qed
  then show ?case
    unfolding M_def goal .
qed

lemma merged_values:
  "filter (\<lambda>e. fst e = k) (entries (merge_query u T)) =
     (case map_of (rev T) k of
        Some v \<Rightarrow> [(k, v)]
      | None \<Rightarrow> filter (\<lambda>e. fst e = k) (entries u))"
proof (induction T rule: rev_induct)
  case Nil
  show ?case by (simp add: merge_query_def)
next
  case (snoc e T)
  have "entries (merge_query u (T @ [e])) = set_entry (fst e) (snd e) (entries (merge_query u T))"
    unfolding merge_query_snoc by (simp add: searchParams_set_def Let_def)
  with snoc show ?case
    by (cases e) (auto simp: filter_set_entry)
qed

lemma set_entry_nonempty: "set_entry k v es \<noteq> []"
  by (cases es) auto

lemma serialize_nonempty: "es \<noteq> [] \<Longrightarrow> serialize es \<noteq> []"
  by (cases es rule: serialize.cases) auto

lemma merged_search:
  "T \<noteq> [] \<Longrightarrow> search (merge_query u T) = CHR ''?'' # serialize (entries (merge_query u T))"
proof (cases T rule: rev_cases)
  case Nil
  then show "T \<noteq> [] \<Longrightarrow> ?thesis" by simp
next
  case (snoc T' e)
  show ?thesis
    unfolding snoc merge_query_snoc
    by (simp add: searchParams_set_def Let_def serialize_nonempty set_entry_nonempty)
qed

lemma query_options_returned:
  "returned (setupOutgoing node empty_outgoing query_options (plain_request ''/?a=1&b=2'' []) UseTarget)"
  by (simp add: example_defs query_options_def)

text \<open>
  C2, as the code has it. The outgoing path ends with the query of the request URL after
  every entry of the target's container has been \<^verbatim>\<open>set\<close> on it. In that merged query
  each key the target sets occurs once, with the value of the target's last entry for it;
  entries of keys the target does not set are the request's; the request's keys keep
  their order, a key the target sets staying where the request first had it; and the keys
  that only the target sets follow, in the order in which the target first sets them.
\<close>

theorem setupOutgoing_merged_query:
  assumes "returned (setupOutgoing pf out opts req w)"
    and "pick w opts = Some t"
    and "new_URL pf (case url req of None \<Rightarrow> ''undefined'' | Some u \<Rightarrow> u) = Some parsed"
    and "T = (case searchParams t of None \<Rightarrow> [] | Some es \<Rightarrow> es)"
  shows "(\<exists>base. out_fields (outgoing_after (setupOutgoing pf out opts req w)) ''path'' =
            Some (JStr (base @ search (merge_query parsed T))))
       \<and> (T \<noteq> [] \<longrightarrow> search (merge_query parsed T) = CHR ''?'' # serialize (entries (merge_query parsed T)))
       \<and> map fst (entries (merge_query parsed T)) =
            keep_first (fst ` set T) (map fst (entries parsed)) @
            filter (\<lambda>k. k \<notin> fst ` set (entries parsed)) (first_occurrences (map fst T))
       \<and> (\<forall>k v. map_of (rev T) k = Some v \<longrightarrow>
             filter (\<lambda>e. fst e = k) (entries (merge_query parsed T)) = [(k, v)])
       \<and> (\<forall>k. k \<notin> fst ` set T \<longrightarrow>
             filter (\<lambda>e. fst e = k) (entries (merge_query parsed T)) =
             filter (\<lambda>e. fst e = k) (entries parsed))"
proof -
  from assms(1) obtain t0 parsed0 where
    t0: "pick w opts = Some t0"
    and pu: "new_URL pf (case url req of None \<Rightarrow> ''undefined'' | Some u \<Rightarrow> u) = Some parsed0"
    and fs: "out_fields (outgoing_after (setupOutgoing pf out opts req w)) =
       (redirect_fields opts (base_fields opts req (resolve t0) (out_fields out)))
         (''path'' \<mapsto> JStr (compose_path (targetPath opts (resolve t0))
              (outgoingPath opts req (merge_query parsed0 (case searchParams (resolve t0) of None \<Rightarrow> [] | Some es \<Rightarrow> es)))
              (search (merge_query parsed0 (case searchParams (resolve t0) of None \<Rightarrow> [] | Some es \<Rightarrow> es)))))"
    by (rule setupOutgoing_returned)
  from t0 pu assms(2,3) have [simp]: "t0 = t" "parsed0 = parsed" by simp_all
  have T: "(case searchParams (resolve t) of None \<Rightarrow> [] | Some es \<Rightarrow> es) = T"
    by (simp add: resolve_searchParams assms(4))
  have "out_fields (outgoing_after (setupOutgoing pf out opts req w)) ''path'' =
      Some (JStr (collapse_slashes (join_slash (map ToString (filter truthy
          [targetPath opts (resolve t), outgoingPath opts req (merge_query parsed T)])))
        @ search (merge_query parsed T)))"
    by (simp add: fs T compose_path_def)
  then have 1: "\<exists>base. out_fields (outgoing_after (setupOutgoing pf out opts req w)) ''path'' =
            Some (JStr (base @ search (merge_query parsed T)))"
    by (rule exI)
  have 4: "\<forall>k v. map_of (rev T) k = Some v \<longrightarrow>
             filter (\<lambda>e. fst e = k) (entries (merge_query parsed T)) = [(k, v)]"
    by (simp add: merged_values)
  have 5: "\<forall>k. k \<notin> fst ` set T \<longrightarrow>
             filter (\<lambda>e. fst e = k) (entries (merge_query parsed T)) =
             filter (\<lambda>e. fst e = k) (entries parsed)"
  proof (intro allI impI)
    fix k assume "k \<notin> fst ` set T"
    then have "map_of (rev T) k = None"
      by (simp add: map_of_eq_None_iff)
    then show "filter (\<lambda>e. fst e = k) (entries (merge_query parsed T)) =
             filter (\<lambda>e. fst e = k) (entries parsed)"
      by (simp add: merged_values)
  qed
  from 1 merged_search [of T parsed] merged_keys [of parsed T] 4 5 show ?thesis
    by (intro conjI impI) assumption+
qed

theorem setupOutgoing_merged_query_witness:
  "returned (setupOutgoing node empty_outgoing query_options (plain_request ''/?a=1&b=2'' []) UseTarget) \<and>
   search (merge_query \<lparr>pathname = ''/'', search = ''?a=1&b=2'', entries = [(''a'', ''1''), (''b'', ''2'')]\<rparr> [(''b'', ''3'')])
     = ''?a=1&b=3'' \<and>
   map fst (entries (merge_query \<lparr>pathname = ''/'', search = ''?a=1&b=2'', entries = [(''a'', ''1''), (''b'', ''2'')]\<rparr> [(''b'', ''3'')]))
     = [''a'', ''b'']"
proof -
  have e: "entries (merge_query \<lparr>pathname = ''/'', search = ''?a=1&b=2'', entries = [(''a'', ''1''), (''b'', ''2'')]\<rparr> [(''b'', ''3'')])
      = [(''a'', ''1''), (''b'', ''3'')]"
    by (simp add: merge_query_def searchParams_set_def)
  from setupOutgoing_merged_query [OF query_options_returned,
      of "an_object [(''protocol'', JStr ''http:''), (''host'', JStr ''api.example.com'')] (Some [(''b'', ''3'')])"
         "\<lparr>pathname = ''/'', search = ''?a=1&b=2'', entries = [(''a'', ''1''), (''b'', ''2'')]\<rparr>"
         "[(''b'', ''3'')]"]
  have "search (merge_query \<lparr>pathname = ''/'', search = ''?a=1&b=2'', entries = [(''a'', ''1''), (''b'', ''2'')]\<rparr> [(''b'', ''3'')])
      = CHR ''?'' # serialize (entries (merge_query \<lparr>pathname = ''/'', search = ''?a=1&b=2'', entries = [(''a'', ''1''), (''b'', ''2'')]\<rparr> [(''b'', ''3'')]))"
    by (simp add: query_options_def no_options_def pick_def an_object_def node_def sample_URL_def plain_request_def)
  then show ?thesis
    using query_options_returned
    by (simp add: e urlencode_def urlencode_byte_def)
qed

text \<open>
  Request \<^verbatim>\<open>/?a=1&b=2\<close>, target query \<^verbatim>\<open>b=3\<close>: the path is \<^verbatim>\<open>/?a=1&b=3\<close>. The
  key the target sets is not first, and the request-only key does not come after it.
\<close>

theorem merged_query_keeps_request_order:
  "returned (setupOutgoing node empty_outgoing query_options (plain_request ''/?a=1&b=2'' []) UseTarget) \<and>
   target_query query_options = Some [(''b'', ''3'')] \<and>
   new_URL node ''/?a=1&b=2'' = Some \<lparr>pathname = ''/'', search = ''?a=1&b=2'', entries = [(''a'', ''1''), (''b'', ''2'')]\<rparr> \<and>
   entries (merge_query \<lparr>pathname = ''/'', search = ''?a=1&b=2'', entries = [(''a'', ''1''), (''b'', ''2'')]\<rparr> [(''b'', ''3'')])
     = [(''a'', ''1''), (''b'', ''3'')] \<and>
   out_fields (outgoing_after (setupOutgoing node empty_outgoing query_options (plain_request ''/?a=1&b=2'' []) UseTarget)) ''path''
     = Some (JStr ''/?a=1&b=3'') \<and>
   \<not> target_keys_first [(''b'', ''3'')] [(''a'', ''1''), (''b'', ''3'')]"
  by (simp add: example_defs query_options_def target_query_def searchParams_set_def
        targetPath_def outgoingPath_def compose_path_def js_or_def get_def
        urlencode_def urlencode_byte_def target_keys_first_def)























end
